theory Spec2Isabelle
  imports Main
begin

section \<open>The ninja driver (src/ninja.cc)\<close>

text \<open>
  The driver is a thin layer over a library (parser, graph, builder, build log) that is
  not part of the sources at hand. The embedding follows \<^verbatim>\<open>ninja.cc\<close> function by
  function. What the driver calls in libc or in the library is a parameter of the
  model; what the driver prints, and the library calls the properties below talk
  about, is recorded in a trace of events.
\<close>

subsection \<open>C integers\<close>

text \<open>
  \<^verbatim>\<open>int\<close> is 32 bits wide. Values are mathematical integers; \<open>wrap_int\<close> is the
  conversion to \<^verbatim>\<open>int\<close> (two's complement) and is applied wherever the source
  computes or converts an \<^verbatim>\<open>int\<close>. \<^verbatim>\<open>long\<close> is 64 bits wide (LP64).
\<close>

definition INT_MAX :: int where
  "INT_MAX = 2147483647"


definition LONG_MAX :: int where
  "LONG_MAX = 9223372036854775807"

definition LONG_MIN :: int where
  "LONG_MIN = - 9223372036854775808"

definition wrap_int :: "int \<Rightarrow> int" where
  "wrap_int x = (x + 2147483648) mod 4294967296 - 2147483648"

subsection \<open>libc: strtol and atoi\<close>

text \<open>
  \<^verbatim>\<open>strtol(nptr, &end, 10)\<close> as ISO C defines it: white space is skipped, an optional
  sign is read, then the longest run of decimal digits. The value is clamped to the
  range of \<^verbatim>\<open>long\<close>. Without a digit no conversion takes place: the value is 0 and
  \<^verbatim>\<open>end\<close> is \<^verbatim>\<open>nptr\<close>. The second component is the string \<^verbatim>\<open>end\<close> points to, so
  \<^verbatim>\<open>*end != 0\<close> is \<open>snd (strtol s) \<noteq> []\<close>.
\<close>

definition isspace :: "char \<Rightarrow> bool" where
  "isspace c = (c \<in> set [CHR '' '', CHR 0x09, CHR 0x0A, CHR 0x0B, CHR 0x0C, CHR 0x0D])"

definition isdigit :: "char \<Rightarrow> bool" where
  "isdigit c = (48 \<le> (of_char c :: nat) \<and> (of_char c :: nat) \<le> 57)"

definition digit_value :: "char \<Rightarrow> int" where
  "digit_value c = of_char c - 48"

definition decimal :: "string \<Rightarrow> int" where
  "decimal ds = foldl (\<lambda>a c. 10 * a + digit_value c) 0 ds"

definition skip_sign :: "string \<Rightarrow> string" where
  "skip_sign s = (case s of [] \<Rightarrow> []
                   | c # cs \<Rightarrow> if c = CHR ''-'' \<or> c = CHR ''+'' then cs else s)"

definition negative :: "string \<Rightarrow> bool" where
  "negative s = (case s of [] \<Rightarrow> False | c # cs \<Rightarrow> c = CHR ''-'')"

definition strtol :: "string \<Rightarrow> int \<times> string" where
  "strtol nptr =
     (let s = dropWhile isspace nptr;
          ds = takeWhile isdigit (skip_sign s)
      in if ds = [] then (0, nptr)
         else (max LONG_MIN (min LONG_MAX (if negative s then - decimal ds else decimal ds)),
               dropWhile isdigit (skip_sign s)))"

text \<open>
  \<^verbatim>\<open>atoi(s)\<close> is \<^verbatim>\<open>(int) strtol(s, NULL, 10)\<close>; out of the range of \<^verbatim>\<open>int\<close> ISO C
  leaves it undefined, and the model wraps as the cast does.
\<close>

definition atoi :: "string \<Rightarrow> int" where
  "atoi s = wrap_int (fst (strtol s))"

subsection \<open>GuessParallelism\<close>

text \<open>
  The argument is the processor count the operating system reports
  (\<^verbatim>\<open>get_nprocs()\<close>, \<^verbatim>\<open>sysctl\<close> or \<^verbatim>\<open>GetSystemInfo\<close>), an \<^verbatim>\<open>int\<close>.
  \<^verbatim>\<open>processors + 2\<close> overflows for the two greatest values only; the model wraps there.
\<close>

definition GuessParallelism :: "int \<Rightarrow> int" where
  "GuessParallelism processors =
     (if processors = 0 \<or> processors = 1 then 2
      else if processors = 2 then 3
      else wrap_int (processors + 2))"

subsection \<open>Configuration, events, option parsing\<close>

text \<open>
  \<^verbatim>\<open>BuildConfig\<close> is declared in \<^verbatim>\<open>build.h\<close>; the driver writes the four fields below.
  The values its constructor gives them are a parameter of \<open>main\<close>.
\<close>

datatype Verbosity = NORMAL | QUIET | VERBOSE

record BuildConfig =
  verbosity :: Verbosity
  dry_run :: bool
  parallelism :: int
  swallow_failures :: int


text \<open>
  What the process prints and which library calls it makes, in order. \<open>Usage n\<close> is the
  usage text with \<open>n\<close> as the default of \<^verbatim>\<open>-j\<close>; \<open>Error\<close> and \<open>Fatal\<close> are the
  diagnostics of \<^verbatim>\<open>util.h\<close>, and \<open>Fatal\<close> ends the process.
\<close>

datatype event =
    Usage int
  | Printf string
  | Error string
  | Fatal string
  | Call_chdir string
  | Call_Load string
  | Call_RunTool string "string list"
  | Call_Tool string "string list"
  | Call_MakeDir string
  | Call_BuildLog_Load string
  | Call_BuildLog_OpenForWrite string
  | Call_RebuildManifest
  | Call_ResetState
  | Call_RunBuild "string list"
  | Metrics_Report

text \<open>
  Modelled from the spec: \<^verbatim>\<open>Fatal\<close> (\<^verbatim>\<open>util.cc\<close> is not among the sources) prints a
  one-line diagnostic and ends the process with a non-zero status; the status is 1.
\<close>

definition Fatal_status :: int where
  "Fatal_status = 1"

text \<open>A function either leaves the process (\<open>Return\<close>: status and output) or goes on.\<close>

datatype 'a flow = Return int "event list" | Next 'a

text \<open>The variables of \<open>main\<close> that option parsing sets.\<close>

record Locals =
  config :: BuildConfig
  input_file :: string
  working_dir :: "string option"
  tool :: string
  g_metrics :: bool

text \<open>
  \<^verbatim>\<open>getopt_long\<close> is libc's. One call that returns an option is a \<open>getopt_call\<close>: the
  character returned (\<^verbatim>\<open>'?'\<close> for an option that is not in the option string or that
  lacks its argument), \<^verbatim>\<open>optarg\<close>, and the arguments from \<^verbatim>\<open>optind\<close> on after the
  call. A command line is the list of these calls up to the one that returns -1,
  together with the arguments from \<^verbatim>\<open>optind\<close> on after that last call.
\<close>

record getopt_call =
  opt :: char
  optarg :: string
  remaining :: "string list"

definition DebugEnable :: "string \<Rightarrow> Locals \<Rightarrow> bool \<times> event list \<times> Locals" where
  "DebugEnable name l =
     (if name = ''list'' then
        (False, [Printf ''debugging modes:\<newline>  stats  print operation counts/timing info\<newline>''], l)
      else if name = ''stats'' then (True, [], l\<lparr>g_metrics := True\<rparr>)
      else (False, [Printf (''ninja: unknown debug setting '' @ [CHR 0x27] @ name @ [CHR 0x27, CHR 0x0A])], l))"

text \<open>
  The body of the \<^verbatim>\<open>switch (opt)\<close> of \<open>main\<close>. For \<^verbatim>\<open>-k\<close> the \<^verbatim>\<open>long\<close> that
  \<^verbatim>\<open>strtol\<close> returns is converted to \<^verbatim>\<open>int\<close>; \<^verbatim>\<open>value - 1\<close> overflows for the
  least \<^verbatim>\<open>int\<close> only, where C leaves the result undefined and the model wraps.
\<close>

definition parse_option :: "getopt_call \<Rightarrow> Locals \<Rightarrow> Locals flow" where
  "parse_option c l =
     (if opt c = CHR ''d'' then
        (case DebugEnable (optarg c) l of
           (ok, out, l') \<Rightarrow> if \<not> ok then Return 1 out else Next l')
      else if opt c = CHR ''f'' then Next (l\<lparr>input_file := optarg c\<rparr>)
      else if opt c = CHR ''j'' then
        Next (l\<lparr>config := (config l)\<lparr>parallelism := atoi (optarg c)\<rparr>\<rparr>)
      else if opt c = CHR ''k'' then
        (let value = wrap_int (fst (strtol (optarg c)));
             end = snd (strtol (optarg c))
         in if end \<noteq> [] then
              Return Fatal_status [Fatal ''-k parameter not numeric; did you mean -k0?'']
            else Next (l\<lparr>config := (config l)\<lparr>swallow_failures := wrap_int (value - 1)\<rparr>\<rparr>))
      else if opt c = CHR ''n'' then Next (l\<lparr>config := (config l)\<lparr>dry_run := True\<rparr>\<rparr>)
      else if opt c = CHR ''v'' then Next (l\<lparr>config := (config l)\<lparr>verbosity := VERBOSE\<rparr>\<rparr>)
      else if opt c = CHR ''t'' then Next (l\<lparr>tool := optarg c\<rparr>)
      else if opt c = CHR ''C'' then Next (l\<lparr>working_dir := Some (optarg c)\<rparr>)
      else Return 1 [Usage (parallelism (config l))])"

text \<open>
  The loop \<^verbatim>\<open>while (tool.empty() && (opt = getopt_long(...)) != -1)\<close>, followed by
  \<^verbatim>\<open>argv += optind\<close>. \<open>cur\<close> is what remains of the command line after the last call
  made so far, \<open>final\<close> what remains after the call that returns -1.
\<close>

fun parse_options ::
  "Locals \<Rightarrow> string list \<Rightarrow> getopt_call list \<Rightarrow> string list \<Rightarrow> (Locals \<times> string list) flow" where
  "parse_options l cur [] final = (if tool l \<noteq> [] then Next (l, cur) else Next (l, final))"
| "parse_options l cur (c # cs) final =
     (if tool l \<noteq> [] then Next (l, cur)
      else case parse_option c l of
             Return code out \<Rightarrow> Return code out
           | Next l' \<Rightarrow> parse_options l' (remaining c) cs final)"

text \<open>The variables of \<open>main\<close> before the first option is read.\<close>

definition initial_locals :: "BuildConfig \<Rightarrow> int \<Rightarrow> Locals" where
  "initial_locals config0 processors =
     \<lparr>config = config0\<lparr>parallelism := GuessParallelism processors\<rparr>,
      input_file = ''build.ninja'',
      working_dir = None,
      tool = [],
      g_metrics = False\<rparr>"

subsection \<open>The graph and the library\<close>

text \<open>
  \<^verbatim>\<open>Node*\<close> and \<^verbatim>\<open>Edge*\<close> are handles. A \<open>State\<close> holds what the driver reads of
  the loaded graph: the lookup of a path, the spelling suggestion, the default targets
  together with the text \<^verbatim>\<open>DefaultNodes\<close> leaves in \<^verbatim>\<open>*err\<close>, a node's path and
  consuming edges, an edge's outputs (the field \<^verbatim>\<open>outputs_\<close>), and the top-level
  bindings (\<^verbatim>\<open>bindings_.LookupVariable\<close>, empty for an unset variable).
\<close>

type_synonym Node = nat
type_synonym Edge = nat

record State =
  LookupNode :: "string \<Rightarrow> Node option"
  SpellcheckNode :: "string \<Rightarrow> Node option"
  DefaultNodes :: "Node list \<times> string"
  path :: "Node \<Rightarrow> string"
  out_edges :: "Node \<Rightarrow> Edge list"
  outputs :: "Edge \<Rightarrow> Node list"
  LookupVariable :: "string \<Rightarrow> string"

text \<open>
  The library and the operating system, over a world \<open>'w\<close> that every call may change.
  A call with a \<^verbatim>\<open>string* err\<close> parameter takes the text of \<^verbatim>\<open>err\<close> and returns
  its result with the new text. \<open>CanonicalizePath\<close> gives the error text or the
  canonical path. \<open>chdir\<close> and \<open>MakeDir\<close> return their result and \<^verbatim>\<open>errno\<close>.
  \<open>Builder\<close> is the constructor; the builder it makes lives in the world.
  \<open>tool_func\<close> is the body of the subtool of that name.
\<close>

record 'w Extern =
  CanonicalizePath :: "string \<Rightarrow> string + string"
  strerror :: "int \<Rightarrow> string"
  chdir :: "string \<Rightarrow> 'w \<Rightarrow> (int \<times> int) \<times> 'w"
  Load :: "string \<Rightarrow> string \<Rightarrow> 'w \<Rightarrow> (bool \<times> string \<times> State) \<times> 'w"
  MakeDir :: "string \<Rightarrow> 'w \<Rightarrow> (int \<times> int) \<times> 'w"
  BuildLog_Load :: "string \<Rightarrow> string \<Rightarrow> 'w \<Rightarrow> (bool \<times> string) \<times> 'w"
  BuildLog_OpenForWrite :: "string \<Rightarrow> string \<Rightarrow> 'w \<Rightarrow> (bool \<times> string) \<times> 'w"
  Builder :: "State \<Rightarrow> BuildConfig \<Rightarrow> 'w \<Rightarrow> 'w"
  AddTarget :: "State \<Rightarrow> Node \<Rightarrow> string \<Rightarrow> 'w \<Rightarrow> (bool \<times> string) \<times> 'w"
  AlreadyUpToDate :: "'w \<Rightarrow> bool"
  Build :: "State \<Rightarrow> string \<Rightarrow> 'w \<Rightarrow> (bool \<times> string) \<times> 'w"
  SpellcheckStringV :: "string \<Rightarrow> string list \<Rightarrow> string option"
  tool_func :: "string \<Rightarrow> State \<Rightarrow> BuildConfig \<Rightarrow> string list \<Rightarrow> 'w \<Rightarrow> int \<times> 'w"

definition EEXIST :: int where
  "EEXIST = 17"

abbreviation (input) sq :: string where
  "sq \<equiv> [CHR 0x27]"

subsection \<open>RebuildManifest\<close>

definition RebuildManifest ::
  "'w Extern \<Rightarrow> State \<Rightarrow> BuildConfig \<Rightarrow> string \<Rightarrow> string \<Rightarrow> 'w \<Rightarrow> (bool \<times> string) \<times> 'w" where
  "RebuildManifest X state cfg file err w =
     (case CanonicalizePath X file of
        Inl e \<Rightarrow> ((False, e), w)
      | Inr p \<Rightarrow>
          (case LookupNode state p of
             None \<Rightarrow> ((False, err), w)
           | Some node \<Rightarrow>
               (case AddTarget X state node err (Builder X state cfg w) of
                  ((ok, err1), w1) \<Rightarrow>
                    if \<not> ok then ((False, err1), w1)
                    else if AlreadyUpToDate X w1 then ((False, err1), w1)
                    else Build X state err1 w1)))"

subsection \<open>CollectTargetsFromArgs\<close>

text \<open>
  The function returns false with a text in \<^verbatim>\<open>*err\<close> (\<open>Failed\<close>), or ends the process
  through \<^verbatim>\<open>Fatal\<close> (\<open>Exited\<close>, after \<^verbatim>\<open>edge->Dump()\<close>), or returns true with the targets. Its callers pass an
  empty \<^verbatim>\<open>err\<close> and an empty vector.
\<close>

datatype failure = Failed string | Exited string

fun collect_loop :: "'w Extern \<Rightarrow> State \<Rightarrow> string list \<Rightarrow> Node list \<Rightarrow> failure + Node list" where
  "collect_loop X state [] targets = Inr targets"
| "collect_loop X state (arg # args) targets =
     (case CanonicalizePath X arg of
        Inl e \<Rightarrow> Inl (Failed e)
      | Inr p0 \<Rightarrow>
          (let first_dependent = (p0 \<noteq> [] \<and> last p0 = CHR ''^'');
               p = (if first_dependent then butlast p0 else p0)
           in case LookupNode state p of
                Some node \<Rightarrow>
                  if first_dependent then
                    (if out_edges state node = [] then
                       Inl (Failed (sq @ p @ sq @ '' has no out edge''))
                     else if outputs state (hd (out_edges state node)) = [] then
                       Inl (Exited ''edge has no outputs'')
                     else collect_loop X state args
                            (targets @ [hd (outputs state (hd (out_edges state node)))]))
                  else collect_loop X state args (targets @ [node])
              | None \<Rightarrow>
                  Inl (Failed (''unknown target '' @ sq @ p @ sq @
                    (case SpellcheckNode state p of
                       Some suggestion \<Rightarrow> '', did you mean '' @ sq @ path state suggestion @ sq @ ''?''
                     | None \<Rightarrow> [])))))"

definition CollectTargetsFromArgs :: "'w Extern \<Rightarrow> State \<Rightarrow> string list \<Rightarrow> failure + Node list" where
  "CollectTargetsFromArgs X state args =
     (if args = [] then
        (case DefaultNodes state of (nodes, e) \<Rightarrow> if e \<noteq> [] then Inl (Failed e) else Inr nodes)
      else collect_loop X state args [])"

subsection \<open>RunTool\<close>

text \<open>
  The table of tools, with \<^verbatim>\<open>browse\<close> as in a build that is neither for Windows nor a
  bootstrap. The bodies of the tools are \<open>tool_func\<close>.
\<close>

definition tools :: "(string \<times> string) list" where
  "tools =
     [(''browse'', ''browse dependency graph in a web browser''),
      (''clean'', ''clean built files''),
      (''commands'', ''list all commands required to rebuild given targets''),
      (''graph'', ''output graphviz dot file for targets''),
      (''query'', ''show inputs/outputs for a path''),
      (''rules'', ''list all rules''),
      (''targets'', ''list targets by their rule or depth in the DAG'')]"

definition RunTool ::
  "'w Extern \<Rightarrow> string \<Rightarrow> State \<Rightarrow> BuildConfig \<Rightarrow> string list \<Rightarrow> 'w \<Rightarrow> int \<times> event list \<times> 'w" where
  "RunTool X name state cfg args w =
     (if name = ''list'' then
        (0, Printf ''ninja subtools:\<newline>'' #
            map (\<lambda>(n, d). Printf (replicate (10 - length n) CHR '' '' @ n @ ''  '' @ d @ [CHR 0x0A])) tools,
         w)
      else if name \<in> set (map fst tools) then
        (case tool_func X name state cfg args w of (r, w') \<Rightarrow> (r, [Call_Tool name args], w'))
      else
        (1, [Error (''unknown tool '' @ sq @ name @ sq @
               (case SpellcheckStringV X name (map fst tools) of
                  Some suggestion \<Rightarrow> '', did you mean '' @ sq @ suggestion @ sq @ ''?''
                | None \<Rightarrow> []))],
         w))"

subsection \<open>RunBuild\<close>

text \<open>
  The loop over the targets: \<open>(False, err)\<close> when \<^verbatim>\<open>AddTarget\<close> fails with a text in
  \<^verbatim>\<open>err\<close>, where \<open>RunBuild\<close> reports it and returns 1.
\<close>

fun add_targets :: "'w Extern \<Rightarrow> State \<Rightarrow> Node list \<Rightarrow> string \<Rightarrow> 'w \<Rightarrow> (bool \<times> string) \<times> 'w" where
  "add_targets X state [] err w = ((True, err), w)"
| "add_targets X state (t # ts) err w =
     (case AddTarget X state t err w of
        ((ok, err1), w1) \<Rightarrow>
          if \<not> ok \<and> err1 \<noteq> [] then ((False, err1), w1)
          else add_targets X state ts err1 w1)"

text \<open>\<open>Inl\<close> is the status of a process that \<^verbatim>\<open>Fatal\<close> ended, \<open>Inr\<close> the value returned.\<close>

definition RunBuild ::
  "'w Extern \<Rightarrow> State \<Rightarrow> BuildConfig \<Rightarrow> string list \<Rightarrow> 'w \<Rightarrow> (int + int) \<times> event list \<times> 'w" where
  "RunBuild X state cfg args w =
     (case CollectTargetsFromArgs X state args of
        Inl (Failed err) \<Rightarrow> (Inr 1, [Error err], w)
      | Inl (Exited msg) \<Rightarrow> (Inl Fatal_status, [Fatal msg], w)
      | Inr targets \<Rightarrow>
          (case add_targets X state targets [] (Builder X state cfg w) of
             ((False, err), w1) \<Rightarrow> (Inr 1, [Error err], w1)
           | ((True, err), w1) \<Rightarrow>
               if AlreadyUpToDate X w1 then (Inr 0, [Printf ''ninja: no work to do.\<newline>''], w1)
               else
                 (case Build X state err w1 of
                    ((False, err2), w2) \<Rightarrow>
                      (Inr 1, [Printf (''ninja: build stopped: '' @ err2 @ ''.\<newline>'')], w2)
                  | ((True, err2), w2) \<Rightarrow> (Inr 0, [], w2))))"

subsection \<open>main\<close>

text \<open>Lines 642 to 654: \<^verbatim>\<open>-C DIR\<close>.\<close>

definition enter_directory :: "'w Extern \<Rightarrow> string option \<Rightarrow> 'w \<Rightarrow> (int + unit) \<times> event list \<times> 'w" where
  "enter_directory X dir w =
     (case dir of
        None \<Rightarrow> (Inr (), [], w)
      | Some d \<Rightarrow>
          (case chdir X d w of
             ((r, errno), w1) \<Rightarrow>
               if r < 0 then
                 (Inl Fatal_status,
                  [Printf (''ninja: Entering directory `'' @ d @ sq @ [CHR 0x0A]), Call_chdir d,
                   Fatal (''chdir to '' @ sq @ d @ sq @ '' - '' @ strerror X errno)],
                  w1)
               else
                 (Inr (), [Printf (''ninja: Entering directory `'' @ d @ sq @ [CHR 0x0A]), Call_chdir d], w1)))"

text \<open>
  Lines 674 to 684: the path of the build log, after the build directory is made.
  \<open>Inl\<close> is the status \<open>main\<close> returns, \<open>Inr\<close> the path.
\<close>

definition kLogPath :: string where
  "kLogPath = ''.ninja_log''"

definition build_log_path :: "'w Extern \<Rightarrow> State \<Rightarrow> 'w \<Rightarrow> (int + string) \<times> event list \<times> 'w" where
  "build_log_path X state w =
     (let build_dir = LookupVariable state ''builddir'' in
      if build_dir \<noteq> [] then
        (case MakeDir X build_dir w of
           ((r, errno), w1) \<Rightarrow>
             if r < 0 \<and> errno \<noteq> EEXIST then
               (Inl 1,
                [Call_MakeDir build_dir,
                 Error (''creating build directory '' @ build_dir @ '': '' @ strerror X errno)],
                w1)
             else (Inr (build_dir @ ''/'' @ kLogPath), [Call_MakeDir build_dir], w1))
      else (Inr kLogPath, [], w))"

text \<open>Lines 670 to 695. \<open>Inr\<close> is the text of \<^verbatim>\<open>err\<close> when both calls succeed.\<close>

definition open_build_log ::
  "'w Extern \<Rightarrow> State \<Rightarrow> string \<Rightarrow> 'w \<Rightarrow> (int + string) \<times> event list \<times> 'w" where
  "open_build_log X state err w =
     (case build_log_path X state w of
        (Inl code, out, w1) \<Rightarrow> (Inl code, out, w1)
      | (Inr log_path, out, w1) \<Rightarrow>
          (case BuildLog_Load X log_path err w1 of
             ((ok, err1), w2) \<Rightarrow>
               if \<not> ok then
                 (Inl 1,
                  out @ [Call_BuildLog_Load log_path,
                         Error (''loading build log '' @ log_path @ '': '' @ err1)],
                  w2)
               else
                 (case BuildLog_OpenForWrite X log_path err1 w2 of
                    ((ok2, err2), w3) \<Rightarrow>
                      if \<not> ok2 then
                        (Inl 1,
                         out @ [Call_BuildLog_Load log_path, Call_BuildLog_OpenForWrite log_path,
                                Error (''opening build log: '' @ err2)],
                         w3)
                      else
                        (Inr err2,
                         out @ [Call_BuildLog_Load log_path, Call_BuildLog_OpenForWrite log_path],
                         w3))))"

text \<open>
  Lines 709 to 724. \<open>Metrics_Report\<close> stands for the report of \<^verbatim>\<open>-d stats\<close> and the
  hash load line after it.
\<close>

definition build_and_report ::
  "'w Extern \<Rightarrow> Locals \<Rightarrow> State \<Rightarrow> string list \<Rightarrow> 'w \<Rightarrow> int \<times> event list \<times> 'w" where
  "build_and_report X l state args w =
     (case RunBuild X state (config l) args w of
        (Inl code, out, w1) \<Rightarrow> (code, Call_RunBuild args # out, w1)
      | (Inr result, out, w1) \<Rightarrow>
          (result, Call_RunBuild args # out @ (if g_metrics l then [Metrics_Report] else []), w1))"

text \<open>
  From the label \<^verbatim>\<open>reload\<close> to the end of \<open>main\<close>. \<^verbatim>\<open>rebuilt_manifest\<close> is declared
  before the label and keeps its value across the \<^verbatim>\<open>goto\<close>; \<^verbatim>\<open>err\<close> is declared
  after it and starts empty in every pass.
\<close>

function reload ::
  "'w Extern \<Rightarrow> Locals \<Rightarrow> string list \<Rightarrow> bool \<Rightarrow> 'w \<Rightarrow> int \<times> event list \<times> 'w" where
  "reload X l args rebuilt_manifest w =
     (case Load X (input_file l) [] w of
        ((ok, err, state), w1) \<Rightarrow>
          if \<not> ok then (1, [Call_Load (input_file l), Error err], w1)
          else if tool l \<noteq> [] then
            (case RunTool X (tool l) state (config l) args w1 of
               (r, out, w2) \<Rightarrow>
                 (r, [Call_Load (input_file l), Call_RunTool (tool l) args] @ out, w2))
          else
            (case open_build_log X state err w1 of
               (Inl code, out, w2) \<Rightarrow> (code, Call_Load (input_file l) # out, w2)
             | (Inr err1, out, w2) \<Rightarrow>
                 if \<not> rebuilt_manifest then
                   (case RebuildManifest X state (config l) (input_file l) err1 w2 of
                      ((rebuilt, err2), w3) \<Rightarrow>
                        if rebuilt then
                          (case reload X l args True w3 of
                             (r, out2, w4) \<Rightarrow>
                               (r,
                                Call_Load (input_file l) # out @
                                  [Call_RebuildManifest, Call_ResetState] @ out2,
                                w4))
                        else if err2 \<noteq> [] then
                          (1,
                           Call_Load (input_file l) # out @
                             [Call_RebuildManifest,
                              Error (''rebuilding '' @ sq @ input_file l @ sq @ '': '' @ err2)],
                           w3)
                        else
                          (case build_and_report X l state args w3 of
                             (r, out2, w4) \<Rightarrow>
                               (r,
                                Call_Load (input_file l) # out @
                                  [Call_RebuildManifest] @ out2,
                                w4)))
                 else
                   (case build_and_report X l state args w2 of
                      (r, out2, w3) \<Rightarrow> (r, Call_Load (input_file l) # out @ out2, w3))))"
  by pat_completeness auto
termination
  by (relation "measure (\<lambda>(X, l, args, rebuilt_manifest, w). if rebuilt_manifest then 0 else 1)") auto

declare reload.simps [simp del]

text \<open>
  \<open>main\<close>: the configuration \<^verbatim>\<open>BuildConfig\<close>'s constructor makes, the processor count,
  the command line as \<^verbatim>\<open>getopt_long\<close> reads it, and the world. The result is the exit
  status, the trace and the world at the end.
\<close>

definition main ::
  "'w Extern \<Rightarrow> BuildConfig \<Rightarrow> int \<Rightarrow> getopt_call list \<Rightarrow> string list \<Rightarrow> 'w \<Rightarrow> int \<times> event list \<times> 'w" where
  "main X config0 processors calls final w =
     (case parse_options (initial_locals config0 processors) [] calls final of
        Return code out \<Rightarrow> (code, out, w)
      | Next (l, args) \<Rightarrow>
          (case enter_directory X (working_dir l) w of
             (Inl code, out, w1) \<Rightarrow> (code, out, w1)
           | (Inr u, out, w1) \<Rightarrow>
               (case reload X l args False w1 of
                  (r, out2, w2) \<Rightarrow> (r, out @ out2, w2))))"

subsection \<open>A sample project\<close>

text \<open>
  A manifest with three edges: \<^verbatim>\<open>hello.c\<close> to \<^verbatim>\<open>hello.o\<close>, \<^verbatim>\<open>hello.o\<close> to
  \<^verbatim>\<open>hello\<close>, and \<^verbatim>\<open>configure.py\<close> to \<^verbatim>\<open>build.ninja\<close> itself; \<^verbatim>\<open>builddir\<close> is
  \<^verbatim>\<open>out\<close>. The nodes are numbered in the order of \<open>sample_paths\<close>.
\<close>

definition sample_config :: BuildConfig where
  "sample_config = \<lparr>verbosity = NORMAL, dry_run = False, parallelism = 1, swallow_failures = 0\<rparr>"

definition sample_paths :: "string list" where
  "sample_paths = [''hello.c'', ''hello.o'', ''hello'', ''build.ninja'', ''configure.py'']"

definition sample_state :: State where
  "sample_state =
     \<lparr>LookupNode = map_of (zip sample_paths [0, 1, 2, 3, 4]),
      SpellcheckNode = (\<lambda>p. if p = ''helo'' then Some 2 else None),
      DefaultNodes = ([2], []),
      path = (\<lambda>n. sample_paths ! n),
      out_edges = (\<lambda>n. if n = 0 then [0] else if n = 1 then [1] else if n = 4 then [2] else []),
      outputs = (\<lambda>e. if e = 0 then [1] else if e = 1 then [2] else [3]),
      LookupVariable = (\<lambda>v. if v = ''builddir'' then ''out'' else [])\<rparr>"

text \<open>
  A world that counts the builds run. Every call succeeds, the directory \<^verbatim>\<open>out\<close>
  exists already, and nothing is ever up to date: the manifest's own edge is dirty in
  every pass.
\<close>

definition sample_extern :: "nat Extern" where
  "sample_extern =
     \<lparr>CanonicalizePath = (\<lambda>p. if p = [] then Inl ''empty path'' else Inr p),
      strerror = (\<lambda>e. if e = EEXIST then ''File exists'' else ''Permission denied''),
      chdir = (\<lambda>d w. ((0, 0), w)),
      Load = (\<lambda>file err w. ((True, err, sample_state), w)),
      MakeDir = (\<lambda>d w. ((- 1, EEXIST), w)),
      BuildLog_Load = (\<lambda>p err w. ((True, err), w)),
      BuildLog_OpenForWrite = (\<lambda>p err w. ((True, err), w)),
      Builder = (\<lambda>state cfg w. w),
      AddTarget = (\<lambda>state node err w. ((True, err), w)),
      AlreadyUpToDate = (\<lambda>w. False),
      Build = (\<lambda>state err w. ((True, err), Suc w)),
      SpellcheckStringV = (\<lambda>word words. None),
      tool_func = (\<lambda>name state cfg args w. (0, w))\<rparr>"

section \<open>Properties\<close>

subsection \<open>Option parsing: auxiliary facts\<close>

lemma parse_option_keeps_parallelism:
  "opt c \<noteq> CHR ''j'' \<Longrightarrow> parse_option c l = Next l' \<Longrightarrow> parallelism (config l') = parallelism (config l)"
  by (auto simp: parse_option_def DebugEnable_def Let_def split: if_splits)

lemma parse_options_keeps_parallelism:
  "\<forall>c\<in>set calls. opt c \<noteq> CHR ''j'' \<Longrightarrow> parse_options l cur calls final = Next (l', args) \<Longrightarrow>
   parallelism (config l') = parallelism (config l)"
proof (induction l cur calls final rule: parse_options.induct)
  case (1 l cur final)
  then show ?case by (simp split: if_splits)
next
  case (2 l cur c cs final)
  show ?case
  proof (cases "tool l \<noteq> []")
    case True
    with 2 show ?thesis by simp
  next
    case False
    with "2.prems" obtain l1 where s: "parse_option c l = Next l1"
      and r: "parse_options l1 (remaining c) cs final = Next (l', args)"
      by (auto split: flow.splits)
    from "2.prems" have "opt c \<noteq> CHR ''j''" by simp
    then have "parallelism (config l1) = parallelism (config l)"
      using s by (rule parse_option_keeps_parallelism)
    moreover have "parallelism (config l') = parallelism (config l1)"
      using "2.IH" [OF False s] r "2.prems" by simp
    ultimately show ?thesis by simp
  qed
qed

lemma GuessParallelism_value:
  "0 \<le> p \<Longrightarrow> p \<le> INT_MAX - 2 \<Longrightarrow>
   GuessParallelism p = (if p \<le> 1 then 2 else if p = 2 then 3 else p + 2)"
  by (auto simp: GuessParallelism_def wrap_int_def INT_MAX_def)




text \<open>Options that are accepted and choose no tool are followed by the next call.\<close>

lemma parse_options_append:
  "parse_options l cur pre F = Next (l', x) \<Longrightarrow> tool l' = [] \<Longrightarrow>
   parse_options l cur (pre @ rest) final =
     parse_options l' (if pre = [] then cur else remaining (last pre)) rest final"
proof (induction l cur pre F arbitrary: rule: parse_options.induct)
  case (1 l cur F)
  then show ?case by (cases rest) (auto split: if_splits)
next
  case (2 l cur c cs F)
  show ?case
  proof (cases "tool l \<noteq> []")
    case True
    with "2.prems" show ?thesis by simp
  next
    case False
    with "2.prems" obtain l1 where s: "parse_option c l = Next l1"
      and r: "parse_options l1 (remaining c) cs F = Next (l', x)"
      by (auto split: flow.splits)
    have "parse_options l1 (remaining c) (cs @ rest) final =
            parse_options l' (if cs = [] then remaining c else remaining (last cs)) rest final"
      using "2.IH" [OF False s r "2.prems"(2)] .
    with False s show ?thesis by simp
  qed
qed

lemma main_Return:
  "parse_options (initial_locals config0 p) [] calls final = Return code out \<Longrightarrow>
   main X config0 p calls final w = (code, out, w)"
  by (simp add: main_def)

lemma parse_options_stops:
  "tool l = [] \<Longrightarrow> parse_option c l = Return code out \<Longrightarrow>
   parse_options l cur (c # cs) final = Return code out"
  by simp

lemma strtol_3: "strtol ''3'' = (3, [])"
  by (simp add: strtol_def isspace_def isdigit_def skip_sign_def negative_def decimal_def
      digit_value_def LONG_MAX_def LONG_MIN_def)

lemma atoi_no_digits:
  "takeWhile isdigit (skip_sign (dropWhile isspace a)) = [] \<Longrightarrow> atoi a = 0"
  by (simp add: atoi_def strtol_def wrap_int_def)

lemma atoi_zero: "atoi ''0'' = 0"
  by (simp add: atoi_def wrap_int_def strtol_def isspace_def isdigit_def skip_sign_def negative_def
      decimal_def digit_value_def LONG_MAX_def LONG_MIN_def)

lemma strtol_abc: "strtol ''abc'' = (0, ''abc'')"
  by (simp add: strtol_def isspace_def isdigit_def skip_sign_def negative_def decimal_def
      digit_value_def LONG_MAX_def LONG_MIN_def)


lemma strtol_no_digits:
  "takeWhile isdigit (skip_sign (dropWhile isspace a)) = [] \<Longrightarrow> strtol a = (0, a)"
  by (simp add: strtol_def)

subsection \<open>The failure budget\<close>




subsection \<open>The default parallelism\<close>

text \<open>
  C2, as the code has it. For a processor count from 0 up (and at most
  \<open>INT_MAX - 2\<close>), a command line without \<^verbatim>\<open>-j\<close> runs with parallelism 2 for no
  or one processor, 3 for two, and the count plus 2 from three on; this is never less
  than 2.
\<close>

theorem default_parallelism:
  assumes "0 \<le> processors" and "processors \<le> INT_MAX - 2"
    and "\<forall>c\<in>set calls. opt c \<noteq> CHR ''j''"
    and "parse_options (initial_locals config0 processors) [] calls final = Next (l, args)"
  shows "parallelism (config l) =
           (if processors \<le> 1 then 2 else if processors = 2 then 3 else processors + 2)
         \<and> 2 \<le> parallelism (config l)"
proof -
  have "parallelism (config l) = parallelism (config (initial_locals config0 processors))"
    using assms(3,4) by (rule parse_options_keeps_parallelism)
  then have "parallelism (config l) = GuessParallelism processors"
    by (simp add: initial_locals_def)
  with assms(1,2) show ?thesis
    by (simp add: GuessParallelism_value)
qed

theorem default_parallelism_witness:
  "parse_options
     (initial_locals \<lparr>verbosity = NORMAL, dry_run = False, parallelism = 1, swallow_failures = 0\<rparr> 4) []
     [\<lparr>opt = CHR ''n'', optarg = [], remaining = [''all'']\<rparr>] [''all''] =
   Next (\<lparr>config = \<lparr>verbosity = NORMAL, dry_run = True, parallelism = 6, swallow_failures = 0\<rparr>,
          input_file = ''build.ninja'', working_dir = None, tool = [], g_metrics = False\<rparr>, [''all''])
   \<and> parallelism (config \<lparr>config = \<lparr>verbosity = NORMAL, dry_run = True, parallelism = 6, swallow_failures = 0\<rparr>,
          input_file = ''build.ninja'', working_dir = None, tool = [], g_metrics = False\<rparr>) = 4 + 2"
proof -
  have run: "parse_options
     (initial_locals \<lparr>verbosity = NORMAL, dry_run = False, parallelism = 1, swallow_failures = 0\<rparr> 4) []
     [\<lparr>opt = CHR ''n'', optarg = [], remaining = [''all'']\<rparr>] [''all''] =
   Next (\<lparr>config = \<lparr>verbosity = NORMAL, dry_run = True, parallelism = 6, swallow_failures = 0\<rparr>,
          input_file = ''build.ninja'', working_dir = None, tool = [], g_metrics = False\<rparr>, [''all''])"
    by (simp add: initial_locals_def parse_option_def GuessParallelism_def wrap_int_def)
  have "(0::int) \<le> 4" and "(4::int) \<le> INT_MAX - 2"
    by (simp_all add: INT_MAX_def)
  from default_parallelism [OF this _ run] show ?thesis
    using run by simp
qed

text \<open>C2 as stated fails for one processor: the default is 2, not 1 + 2.\<close>

theorem default_parallelism_counterexample: "GuessParallelism 1 \<noteq> 1 + 2"
  by (simp add: GuessParallelism_def)

subsection \<open>Unknown flags\<close>

text \<open>
  C4, as the code has it. When option parsing reaches a call of \<^verbatim>\<open>getopt_long\<close> that
  returns a character outside the handled options (\<^verbatim>\<open>'?'\<close> for an unknown flag,
  and \<^verbatim>\<open>'h'\<close>), \<open>main\<close> prints the usage text and exits with status 1; it does
  nothing else.
\<close>

theorem unknown_flag_usage:
  assumes "parse_options (initial_locals config0 p) [] pre F = Next (l, x)"
    and "tool l = []"
    and "opt c \<notin> set ''dfjkntvC''"
  shows "main X config0 p (pre @ c # post) final w = (1, [Usage (parallelism (config l))], w)"
proof -
  from assms(3) have "parse_option c l = Return 1 [Usage (parallelism (config l))]"
    by (simp add: parse_option_def)
  with assms(2) have "parse_options l (if pre = [] then [] else remaining (last pre)) (c # post) final =
      Return 1 [Usage (parallelism (config l))]"
    by (rule parse_options_stops)
  with assms(1,2) have "parse_options (initial_locals config0 p) [] (pre @ c # post) final =
      Return 1 [Usage (parallelism (config l))]"
    by (simp add: parse_options_append)
  then show ?thesis by (rule main_Return)
qed

theorem unknown_flag_usage_witness:
  "main sample_extern sample_config 4
     ([\<lparr>opt = CHR ''n'', optarg = [], remaining = [''-x'', ''hello'']\<rparr>] @
      \<lparr>opt = CHR ''?'', optarg = [], remaining = [''hello'']\<rparr> # []) [''hello''] 0 =
   (1, [Usage 6], 0)"
proof -
  have run: "parse_options (initial_locals sample_config 4) []
      [\<lparr>opt = CHR ''n'', optarg = [], remaining = [''-x'', ''hello'']\<rparr>] [] =
    Next (\<lparr>config = \<lparr>verbosity = NORMAL, dry_run = True, parallelism = 6, swallow_failures = 0\<rparr>,
          input_file = ''build.ninja'', working_dir = None, tool = [], g_metrics = False\<rparr>, [])"
    by (simp add: initial_locals_def sample_config_def GuessParallelism_def wrap_int_def parse_option_def)
  have "opt \<lparr>opt = CHR ''?'', optarg = [], remaining = [''hello'']\<rparr> \<notin> set ''dfjkntvC''"
    by simp
  from unknown_flag_usage [OF run _ this, of sample_extern "[]" "[''hello'']" 0]
  show ?thesis by simp
qed

text \<open>C4 as stated fails: the exit status for an unknown flag is not 2.\<close>

theorem unknown_flag_exit_counterexample:
  "fst (main sample_extern sample_config 4
          [\<lparr>opt = CHR ''?'', optarg = [], remaining = []\<rparr>] [] 0) \<noteq> 2"
  by (simp add: main_def initial_locals_def parse_option_def)

subsection \<open>The arguments of -j and -k\<close>

text \<open>
  C10, as the code has it. \<^verbatim>\<open>-j\<close> stores \<^verbatim>\<open>atoi\<close> of its argument and never fails;
  an argument in which \<^verbatim>\<open>atoi\<close> finds no digit, or the argument \<^verbatim>\<open>0\<close>, sets the
  parallelism to 0. An argument of \<^verbatim>\<open>-k\<close> that \<^verbatim>\<open>strtol\<close> does not read to its
  end, among them every argument that is not empty and has no digit after white space
  and a sign, is rejected: when option parsing reaches it, \<open>main\<close> ends with the fatal
  diagnostic and nothing else happens.
\<close>

theorem jobs_unchecked_keep_going_checked:
  "(opt c = CHR ''j'' \<longrightarrow>
      parse_option c l = Next (l\<lparr>config := (config l)\<lparr>parallelism := atoi (optarg c)\<rparr>\<rparr>)
      \<and> (takeWhile isdigit (skip_sign (dropWhile isspace (optarg c))) = [] \<longrightarrow> atoi (optarg c) = 0)
      \<and> (optarg c = ''0'' \<longrightarrow> atoi (optarg c) = 0))
   \<and> (opt c = CHR ''k''
        \<and> (snd (strtol (optarg c)) \<noteq> []
            \<or> takeWhile isdigit (skip_sign (dropWhile isspace (optarg c))) = [] \<and> optarg c \<noteq> [])
        \<and> parse_options (initial_locals config0 p) [] pre F = Next (l, x) \<and> tool l = [] \<longrightarrow>
      main X config0 p (pre @ c # post) final w =
        (Fatal_status, [Fatal ''-k parameter not numeric; did you mean -k0?''], w))"
proof (intro conjI impI)
  assume "opt c = CHR ''j''"
  then show "parse_option c l = Next (l\<lparr>config := (config l)\<lparr>parallelism := atoi (optarg c)\<rparr>\<rparr>)"
    by (simp add: parse_option_def)
next
  assume "takeWhile isdigit (skip_sign (dropWhile isspace (optarg c))) = []"
  then show "atoi (optarg c) = 0" by (rule atoi_no_digits)
next
  assume "optarg c = ''0''"
  then show "atoi (optarg c) = 0" by (simp only: atoi_zero)
next
  assume a: "opt c = CHR ''k''
        \<and> (snd (strtol (optarg c)) \<noteq> []
            \<or> takeWhile isdigit (skip_sign (dropWhile isspace (optarg c))) = [] \<and> optarg c \<noteq> [])
        \<and> parse_options (initial_locals config0 p) [] pre F = Next (l, x) \<and> tool l = []"
  then have pre: "parse_options (initial_locals config0 p) [] pre F = Next (l, x)"
    and t: "tool l = []" and k: "opt c = CHR ''k''"
    by simp_all
  from a have e: "snd (strtol (optarg c)) \<noteq> []"
    using strtol_no_digits [of "optarg c"] by auto
  from k e have "parse_option c l =
      Return Fatal_status [Fatal ''-k parameter not numeric; did you mean -k0?'']"
    by (simp add: parse_option_def)
  with t have "parse_options l (if pre = [] then [] else remaining (last pre)) (c # post) final =
      Return Fatal_status [Fatal ''-k parameter not numeric; did you mean -k0?'']"
    by (rule parse_options_stops)
  then have "parse_options (initial_locals config0 p) [] (pre @ c # post) final =
      Return Fatal_status [Fatal ''-k parameter not numeric; did you mean -k0?'']"
    by (simp only: parse_options_append [OF pre t])
  then show "main X config0 p (pre @ c # post) final w =
        (Fatal_status, [Fatal ''-k parameter not numeric; did you mean -k0?''], w)"
    by (rule main_Return)
qed

theorem jobs_unchecked_keep_going_checked_witness:
  "parse_option \<lparr>opt = CHR ''j'', optarg = ''abc'', remaining = []\<rparr> (initial_locals sample_config 4) =
     Next \<lparr>config = \<lparr>verbosity = NORMAL, dry_run = False, parallelism = 0, swallow_failures = 0\<rparr>,
           input_file = ''build.ninja'', working_dir = None, tool = [], g_metrics = False\<rparr>
   \<and> main sample_extern sample_config 4
       ([] @ \<lparr>opt = CHR ''k'', optarg = ''abc'', remaining = [''hello'']\<rparr> # []) [''hello''] 0 =
     (1, [Fatal ''-k parameter not numeric; did you mean -k0?''], 0)"
proof -
  have nd: "takeWhile isdigit (skip_sign (dropWhile isspace ''abc'')) = []"
    by (simp add: isspace_def isdigit_def skip_sign_def)
  have k: "opt \<lparr>opt = CHR ''k'', optarg = ''abc'', remaining = [''hello'']\<rparr> = CHR ''k''
      \<and> (snd (strtol (optarg \<lparr>opt = CHR ''k'', optarg = ''abc'', remaining = [''hello'']\<rparr>)) \<noteq> []
         \<or> takeWhile isdigit (skip_sign (dropWhile isspace
              (optarg \<lparr>opt = CHR ''k'', optarg = ''abc'', remaining = [''hello'']\<rparr>))) = []
           \<and> optarg \<lparr>opt = CHR ''k'', optarg = ''abc'', remaining = [''hello'']\<rparr> \<noteq> [])
      \<and> parse_options (initial_locals sample_config 4) [] [] [] = Next (initial_locals sample_config 4, [])
      \<and> tool (initial_locals sample_config 4) = []"
    by (simp add: strtol_abc initial_locals_def)
  from jobs_unchecked_keep_going_checked
         [of "\<lparr>opt = CHR ''j'', optarg = ''abc'', remaining = []\<rparr>" "initial_locals sample_config 4"]
       jobs_unchecked_keep_going_checked
         [of "\<lparr>opt = CHR ''k'', optarg = ''abc'', remaining = [''hello'']\<rparr>" "initial_locals sample_config 4"
             sample_config 4 "[]" "[]" "[]" sample_extern "[]" "[''hello'']" 0]
       nd k
  show ?thesis
    by (simp add: initial_locals_def sample_config_def GuessParallelism_def wrap_int_def Fatal_status_def)
qed

text \<open>
  C10 as stated fails for an argument that is not a number but starts with one:
  \<^verbatim>\<open>-k 4x\<close> would be rejected (\<^verbatim>\<open>strtol\<close> stops before the end), and \<^verbatim>\<open>-j 4x\<close>
  sets the parallelism to 4, not 0.
\<close>

theorem jobs_prefix_counterexample:
  "snd (strtol ''4x'') \<noteq> []
   \<and> parse_options (initial_locals sample_config 4) []
       [\<lparr>opt = CHR ''j'', optarg = ''4x'', remaining = [''hello'']\<rparr>] [''hello''] =
     Next (\<lparr>config = \<lparr>verbosity = NORMAL, dry_run = False, parallelism = 4, swallow_failures = 0\<rparr>,
            input_file = ''build.ninja'', working_dir = None, tool = [], g_metrics = False\<rparr>, [''hello''])"
  by (simp add: initial_locals_def sample_config_def GuessParallelism_def wrap_int_def parse_option_def
      atoi_def strtol_def isspace_def isdigit_def skip_sign_def negative_def decimal_def
      digit_value_def LONG_MAX_def LONG_MIN_def)

subsection \<open>Targets: auxiliary facts\<close>

lemma collect_loop_append:
  "collect_loop X state (pre @ rest) targets =
     (case collect_loop X state pre targets of
        Inl f \<Rightarrow> Inl f
      | Inr ts \<Rightarrow> collect_loop X state rest ts)"
proof (induction pre arbitrary: targets)
  case Nil
  show ?case by simp
next
  case (Cons a pre)
  show ?case
    by (simp add: Cons.IH Let_def split: sum.splits option.splits)
qed

lemma CollectTargetsFromArgs_loop:
  "args \<noteq> [] \<Longrightarrow> CollectTargetsFromArgs X state args = collect_loop X state args []"
  by (simp add: CollectTargetsFromArgs_def)

lemma sample_LookupNode:
  "LookupNode sample_state ''hello.c'' = Some 0"
  "LookupNode sample_state ''hello.o'' = Some 1"
  "LookupNode sample_state ''hello'' = Some 2"
  "LookupNode sample_state ''helo'' = None"
  by (simp_all add: sample_state_def sample_paths_def)

subsection \<open>Targets with a caret\<close>

text \<open>
  C5. Let the targets before an argument resolve, let the argument be canonicalized to a
  path \<open>p\<close> followed by a caret, and let \<open>p\<close> name a node. When no edge consumes the
  node, collecting the targets fails with the error that names \<open>p\<close>. When its first
  consuming edge has a first output, that output is the target taken for the argument,
  and the remaining arguments are resolved after it. (An edge without outputs, which the
  graph does not contain, ends the process in \<open>collect_loop\<close>.)
\<close>

theorem first_dependent_target:
  assumes "collect_loop X state pre [] = Inr ts"
    and "CanonicalizePath X arg = Inr (p @ ''^'')"
    and "LookupNode state p = Some node"
  shows "(out_edges state node = [] \<longrightarrow>
            CollectTargetsFromArgs X state (pre @ arg # post) =
              Inl (Failed (sq @ p @ sq @ '' has no out edge'')))
       \<and> (out_edges state node = edge # edges \<and> outputs state edge = n # ns \<longrightarrow>
            CollectTargetsFromArgs X state (pre @ arg # post) = collect_loop X state post (ts @ [n]))"
proof -
  have "collect_loop X state (arg # post) ts =
           (if out_edges state node = [] then Inl (Failed (sq @ p @ sq @ '' has no out edge''))
            else if outputs state (hd (out_edges state node)) = [] then
              Inl (Exited ''edge has no outputs'')
            else collect_loop X state post
                   (ts @ [hd (outputs state (hd (out_edges state node)))]))"
    using assms(2,3) by simp
  then have "CollectTargetsFromArgs X state (pre @ arg # post) =
           (if out_edges state node = [] then Inl (Failed (sq @ p @ sq @ '' has no out edge''))
            else if outputs state (hd (out_edges state node)) = [] then
              Inl (Exited ''edge has no outputs'')
            else collect_loop X state post
                   (ts @ [hd (outputs state (hd (out_edges state node)))]))"
    using assms(1) by (simp add: CollectTargetsFromArgs_loop collect_loop_append)
  then show ?thesis by auto
qed

theorem first_dependent_target_witness:
  "CollectTargetsFromArgs sample_extern sample_state ([''hello''] @ ''hello.c^'' # []) = Inr [2, 1]
   \<and> CollectTargetsFromArgs sample_extern sample_state ([] @ ''hello^'' # []) =
       Inl (Failed (sq @ ''hello'' @ sq @ '' has no out edge''))"
proof -
  have pre: "collect_loop sample_extern sample_state [''hello''] [] = Inr [2]"
    by (simp add: sample_extern_def sample_LookupNode)
  have c1: "CanonicalizePath sample_extern ''hello.c^'' = Inr (''hello.c'' @ ''^'')"
    and c2: "CanonicalizePath sample_extern ''hello^'' = Inr (''hello'' @ ''^'')"
    by (simp_all add: sample_extern_def)
  have e: "collect_loop sample_extern sample_state [] [] = Inr []"
    by simp
  have o1: "out_edges sample_state 0 = 0 # [] \<and> outputs sample_state 0 = 1 # []"
    and o2: "out_edges sample_state 2 = []"
    by (simp_all add: sample_state_def)
  have "CollectTargetsFromArgs sample_extern sample_state ([''hello''] @ ''hello.c^'' # []) =
      collect_loop sample_extern sample_state [] ([2] @ [1])"
    using first_dependent_target [OF pre c1 sample_LookupNode(1), where edge = 0 and edges = "[]" and n = 1 and ns = "[]" and post = "[]"] o1 by blast
  moreover have "CollectTargetsFromArgs sample_extern sample_state ([] @ ''hello^'' # []) =
       Inl (Failed (sq @ ''hello'' @ sq @ '' has no out edge''))"
    using first_dependent_target [OF e c2 sample_LookupNode(3), where edge = 0 and edges = "[]" and n = 1 and ns = "[]" and post = "[]"] o2 by blast
  ultimately show ?thesis by simp
qed

subsection \<open>Unknown targets\<close>

text \<open>
  C6. Let the targets before an argument resolve, and let the argument's canonical path
  (without a final caret) name no node. Then \<open>RunBuild\<close> reports the error
  \<^verbatim>\<open>unknown target\<close> for that path, followed by \<^verbatim>\<open>did you mean\<close> and the path of
  the node the spellchecker suggests whenever it suggests one, and returns 1, which is
  the exit status of \<open>main\<close>; nothing is built.
\<close>

theorem unknown_target:
  assumes "collect_loop X state pre [] = Inr ts"
    and "CanonicalizePath X arg = Inr p0"
    and "p = (if p0 \<noteq> [] \<and> last p0 = CHR ''^'' then butlast p0 else p0)"
    and "LookupNode state p = None"
  shows "RunBuild X state cfg (pre @ arg # post) w =
           (Inr 1,
            [Error (''unknown target '' @ sq @ p @ sq @
               (case SpellcheckNode state p of
                  Some suggestion \<Rightarrow> '', did you mean '' @ sq @ path state suggestion @ sq @ ''?''
                | None \<Rightarrow> []))],
            w)
         \<and> fst (build_and_report X l state (pre @ arg # post) w) = 1"
proof -
  have "collect_loop X state (arg # post) ts =
          Inl (Failed (''unknown target '' @ sq @ p @ sq @
               (case SpellcheckNode state p of
                  Some suggestion \<Rightarrow> '', did you mean '' @ sq @ path state suggestion @ sq @ ''?''
                | None \<Rightarrow> [])))"
    using assms(2,3,4) by (simp add: Let_def)
  then have "CollectTargetsFromArgs X state (pre @ arg # post) =
          Inl (Failed (''unknown target '' @ sq @ p @ sq @
               (case SpellcheckNode state p of
                  Some suggestion \<Rightarrow> '', did you mean '' @ sq @ path state suggestion @ sq @ ''?''
                | None \<Rightarrow> [])))"
    using assms(1) by (simp add: CollectTargetsFromArgs_loop collect_loop_append)
  then show ?thesis
    by (simp add: RunBuild_def build_and_report_def)
qed

theorem unknown_target_witness:
  "RunBuild sample_extern sample_state sample_config ([''hello.o''] @ ''helo'' # [''hello'']) 0 =
     (Inr 1, [Error (''unknown target '' @ sq @ ''helo'' @ sq @ '', did you mean '' @ sq @ ''hello'' @ sq @ ''?'')], 0)"
proof -
  have pre: "collect_loop sample_extern sample_state [''hello.o''] [] = Inr [1]"
    by (simp add: sample_extern_def sample_LookupNode)
  have c: "CanonicalizePath sample_extern ''helo'' = Inr ''helo''"
    by (simp add: sample_extern_def)
  have p: "''helo'' = (if ''helo'' \<noteq> [] \<and> last ''helo'' = CHR ''^'' then butlast ''helo'' else ''helo'')"
    by simp
  from unknown_target [OF pre c p sample_LookupNode(4), of sample_config "[''hello'']" 0]
  show ?thesis
    by (simp add: sample_state_def sample_paths_def)
qed

subsection \<open>The outcomes of a build\<close>

text \<open>
  C7. When the targets are collected and added to the builder without error and the
  builder is then already up to date, \<open>RunBuild\<close> prints \<^verbatim>\<open>ninja: no work to do.\<close>
  and the status is 0; when instead the build fails with a reason, it prints
  \<^verbatim>\<open>ninja: build stopped:\<close> with the reason and the status is 1.
\<close>

theorem build_outcomes:
  assumes "CollectTargetsFromArgs X state args = Inr targets"
    and "add_targets X state targets [] (Builder X state cfg w) = ((True, err), w1)"
  shows "(AlreadyUpToDate X w1 \<longrightarrow>
            RunBuild X state cfg args w = (Inr 0, [Printf ''ninja: no work to do.\<newline>''], w1)
            \<and> (config l = cfg \<longrightarrow> fst (build_and_report X l state args w) = 0))
         \<and> (\<not> AlreadyUpToDate X w1 \<and> Build X state err w1 = ((False, reason), w2) \<longrightarrow>
            RunBuild X state cfg args w =
              (Inr 1, [Printf (''ninja: build stopped: '' @ reason @ ''.\<newline>'')], w2)
            \<and> (config l = cfg \<longrightarrow> fst (build_and_report X l state args w) = 1))"
  using assms by (auto simp: RunBuild_def build_and_report_def)

theorem build_outcomes_witness:
  "RunBuild (sample_extern\<lparr>AlreadyUpToDate := \<lambda>w. True\<rparr>) sample_state sample_config [''hello''] 0 =
     (Inr 0, [Printf ''ninja: no work to do.\<newline>''], 0)
   \<and> RunBuild (sample_extern\<lparr>Build := \<lambda>state err w. ((False, ''subcommand failed''), Suc w)\<rparr>)
        sample_state sample_config [''hello''] 0 =
     (Inr 1, [Printf (''ninja: build stopped: '' @ ''subcommand failed'' @ ''.\<newline>'')], 1)"
proof -
  let ?U = "sample_extern\<lparr>AlreadyUpToDate := \<lambda>w. True\<rparr>"
  let ?F = "sample_extern\<lparr>Build := \<lambda>state err w. ((False, ''subcommand failed''), Suc w)\<rparr>"
  have cu: "CollectTargetsFromArgs ?U sample_state [''hello''] = Inr [2]"
    and cf: "CollectTargetsFromArgs ?F sample_state [''hello''] = Inr [2]"
    by (simp_all add: CollectTargetsFromArgs_def sample_extern_def sample_LookupNode)
  have au: "add_targets ?U sample_state [2] [] (Builder ?U sample_state sample_config 0) = ((True, []), 0)"
    and af: "add_targets ?F sample_state [2] [] (Builder ?F sample_state sample_config 0) = ((True, []), 0)"
    by (simp_all add: sample_extern_def)
  have u: "AlreadyUpToDate ?U 0"
    and f: "\<not> AlreadyUpToDate ?F 0 \<and> Build ?F sample_state [] 0 = ((False, ''subcommand failed''), 1)"
    by (simp_all add: sample_extern_def)
  have "RunBuild ?U sample_state sample_config [''hello''] 0 =
      (Inr 0, [Printf ''ninja: no work to do.\<newline>''], 0)"
    using build_outcomes [OF cu au, where reason = "''x''" and ?w2.0 = 0] u by blast
  moreover have "RunBuild ?F sample_state sample_config [''hello''] 0 =
      (Inr 1, [Printf (''ninja: build stopped: '' @ ''subcommand failed'' @ ''.\<newline>'')], 1)"
    using build_outcomes [OF cf af, where reason = "''subcommand failed''" and ?w2.0 = 1] f by blast
  ultimately show ?thesis by (rule conjI)
qed

subsection \<open>Traces: auxiliary facts\<close>

lemma parse_option_Return_events:
  "parse_option c l = Return code out \<Longrightarrow>
   Call_ResetState \<notin> set out \<and> Call_RebuildManifest \<notin> set out"
  by (auto simp: parse_option_def DebugEnable_def Let_def split: if_splits)

lemma parse_options_Return_events:
  "parse_options l cur calls final = Return code out \<Longrightarrow>
   Call_ResetState \<notin> set out \<and> Call_RebuildManifest \<notin> set out"
proof (induction l cur calls final rule: parse_options.induct)
  case (1 l cur final)
  then show ?case by (simp split: if_splits)
next
  case (2 l cur c cs final)
  show ?case
  proof (cases "tool l \<noteq> []")
    case True
    with "2.prems" show ?thesis by simp
  next
    case False
    show ?thesis
    proof (cases "parse_option c l")
      case (Return code' out')
      with False "2.prems" have "out' = out" by simp
      with Return show ?thesis using parse_option_Return_events by blast
    next
      case (Next l1)
      with False "2.prems" have "parse_options l1 (remaining c) cs final = Return code out"
        by simp
      with "2.IH" [OF False Next] show ?thesis by simp
    qed
  qed
qed

lemma enter_directory_events:
  "enter_directory X d w = (res, out, w1) \<Longrightarrow>
   Call_ResetState \<notin> set out \<and> Call_RebuildManifest \<notin> set out
   \<and> (\<forall>q. Call_BuildLog_Load q \<notin> set out \<and> Call_BuildLog_OpenForWrite q \<notin> set out)"
  by (auto simp: enter_directory_def split: option.splits prod.splits if_splits)

lemma RunTool_events:
  "RunTool X name state cfg args w = (r, out, w1) \<Longrightarrow>
   Call_ResetState \<notin> set out \<and> Call_RebuildManifest \<notin> set out
   \<and> (\<forall>q. Call_BuildLog_Load q \<notin> set out \<and> Call_BuildLog_OpenForWrite q \<notin> set out)"
  by (auto simp: RunTool_def split: if_splits prod.splits)

lemma build_log_path_events:
  "build_log_path X state w = (res, out, w1) \<Longrightarrow>
   Call_ResetState \<notin> set out \<and> Call_RebuildManifest \<notin> set out"
  by (auto simp: build_log_path_def Let_def split: if_splits prod.splits)

lemma open_build_log_events:
  "open_build_log X state err w = (res, out, w1) \<Longrightarrow>
   Call_ResetState \<notin> set out \<and> Call_RebuildManifest \<notin> set out"
  by (auto simp: open_build_log_def split: if_splits prod.splits sum.splits
      dest: build_log_path_events)

lemma RunBuild_events:
  "RunBuild X state cfg args w = (res, out, w1) \<Longrightarrow>
   Call_ResetState \<notin> set out \<and> Call_RebuildManifest \<notin> set out"
  by (auto simp: RunBuild_def split: if_splits prod.splits sum.splits failure.splits bool.splits)

lemma build_and_report_events:
  "build_and_report X l state args w = (r, out, w1) \<Longrightarrow>
   Call_ResetState \<notin> set out \<and> Call_RebuildManifest \<notin> set out"
  by (auto simp: build_and_report_def split: if_splits prod.splits sum.splits
      dest: RunBuild_events)

lemma reload_second_pass:
  assumes "reload X l args True w = (r, out, w')"
  shows "Call_ResetState \<notin> set out \<and> Call_RebuildManifest \<notin> set out"
  using assms
  apply (subst (asm) reload.simps)
  apply (auto split: prod.splits if_splits sum.splits
      dest: RunTool_events open_build_log_events build_and_report_events)
  done

lemma reload_first_pass:
  assumes "reload X l args False w = (r, out, w')"
  shows "(Call_ResetState \<notin> set out \<and> count_list out Call_RebuildManifest \<le> 1)
       \<or> (\<exists>pre post. out = pre @ [Call_RebuildManifest, Call_ResetState] @ post
            \<and> Call_ResetState \<notin> set pre \<and> Call_RebuildManifest \<notin> set pre
            \<and> Call_ResetState \<notin> set post \<and> Call_RebuildManifest \<notin> set post)"
proof -
  obtain ok err state w1 where ld: "Load X (input_file l) [] w = ((ok, err, state), w1)"
    by (metis prod_cases3 surj_pair)
  show ?thesis
  proof (cases "\<not> ok \<or> tool l \<noteq> []")
    case True
    with assms ld have "Call_ResetState \<notin> set out \<and> Call_RebuildManifest \<notin> set out"
      apply (subst (asm) reload.simps)
      apply (auto split: prod.splits if_splits dest: RunTool_events)
      done
    then show ?thesis by simp
  next
    case False
    obtain res out1 w2 where ob: "open_build_log X state err w1 = (res, out1, w2)"
      by (metis prod_cases3)
    from ob have q1: "Call_ResetState \<notin> set out1 \<and> Call_RebuildManifest \<notin> set out1"
      by (rule open_build_log_events)
    show ?thesis
    proof (cases res)
      case (Inl code)
      with assms ld False ob have "out = Call_Load (input_file l) # out1"
        by (subst (asm) reload.simps) simp
      with q1 show ?thesis by simp
    next
      case (Inr err1)
      obtain rebuilt err2 w3 where
        rm: "RebuildManifest X state (config l) (input_file l) err1 w2 = ((rebuilt, err2), w3)"
        by (metis surj_pair)
      show ?thesis
      proof (cases rebuilt)
        case True
        obtain r2 out2 w4 where sp: "reload X l args True w3 = (r2, out2, w4)"
          by (metis prod_cases3)
        from sp have q2: "Call_ResetState \<notin> set out2 \<and> Call_RebuildManifest \<notin> set out2"
          by (rule reload_second_pass)
        from assms ld False ob Inr rm True sp
        have "out = (Call_Load (input_file l) # out1) @ [Call_RebuildManifest, Call_ResetState] @ out2"
          by (subst (asm) reload.simps) simp
        moreover from q1 have "Call_ResetState \<notin> set (Call_Load (input_file l) # out1)
            \<and> Call_RebuildManifest \<notin> set (Call_Load (input_file l) # out1)"
          by simp
        ultimately show ?thesis using q2 by blast
      next
        case nr: False
        show ?thesis
        proof (cases "err2 \<noteq> []")
          case True
          with assms ld False ob Inr rm nr
          have "out = Call_Load (input_file l) # out1 @
              [Call_RebuildManifest, Error (''rebuilding '' @ sq @ input_file l @ sq @ '': '' @ err2)]"
            by (subst (asm) reload.simps) simp
          with q1 show ?thesis by simp
        next
          case ne: False
          obtain r2 out2 w4 where br: "build_and_report X l state args w3 = (r2, out2, w4)"
            by (metis prod_cases3)
          from br have q2: "Call_ResetState \<notin> set out2 \<and> Call_RebuildManifest \<notin> set out2"
            by (rule build_and_report_events)
          from assms ld False ob Inr rm nr ne br
          have "out = Call_Load (input_file l) # out1 @ [Call_RebuildManifest] @ out2"
            by (subst (asm) reload.simps) simp
          with q1 q2 show ?thesis by simp
        qed
      qed
    qed
  qed
qed

lemma count_list_0: "x \<notin> set xs \<Longrightarrow> count_list xs x = 0"
  by (induction xs) auto

lemma sample_main_run:
  "main sample_extern sample_config 4 [] [''hello''] 0 =
     (0,
      [Call_Load ''build.ninja'', Call_MakeDir ''out'', Call_BuildLog_Load ''out/.ninja_log'',
       Call_BuildLog_OpenForWrite ''out/.ninja_log'', Call_RebuildManifest] @
      Call_ResetState #
      [Call_Load ''build.ninja'', Call_MakeDir ''out'', Call_BuildLog_Load ''out/.ninja_log'',
       Call_BuildLog_OpenForWrite ''out/.ninja_log'', Call_RunBuild [''hello'']],
      2)"
  by (simp add: main_def initial_locals_def enter_directory_def reload.simps
      sample_extern_def sample_state_def sample_paths_def sample_config_def
      open_build_log_def build_log_path_def kLogPath_def EEXIST_def
      RebuildManifest_def build_and_report_def RunBuild_def CollectTargetsFromArgs_def)

lemma build_log_path_value:
  "build_log_path X state w = (Inr lp, out, w1) \<Longrightarrow>
   lp = (if LookupVariable state ''builddir'' = [] then ''.ninja_log''
         else LookupVariable state ''builddir'' @ ''/.ninja_log'')
   \<and> out = (if LookupVariable state ''builddir'' = [] then []
            else [Call_MakeDir (LookupVariable state ''builddir'')])"
  by (auto simp: build_log_path_def kLogPath_def Let_def split: if_splits prod.splits)

lemma build_log_path_no_log_events:
  "build_log_path X state w = (res, out, w1) \<Longrightarrow>
   Call_BuildLog_Load q \<notin> set out \<and> Call_BuildLog_OpenForWrite q \<notin> set out"
  by (auto simp: build_log_path_def Let_def split: if_splits prod.splits)

lemma main_rebuild_trace:
  assumes "main X config0 p calls final w = (r, out, w')"
  shows "count_list out Call_ResetState \<le> 1 \<and> count_list out Call_RebuildManifest \<le> 1
       \<and> (\<forall>pre post. out = pre @ Call_ResetState # post \<longrightarrow>
            Call_RebuildManifest \<notin> set post \<and> Call_ResetState \<notin> set post)"
proof (cases "parse_options (initial_locals config0 p) [] calls final")
  case (Return code out0)
  with assms have "out = out0" by (simp add: main_def)
  with Return have "Call_ResetState \<notin> set out \<and> Call_RebuildManifest \<notin> set out"
    using parse_options_Return_events [of "initial_locals config0 p" "[]" calls final code out] by simp
  then show ?thesis by (auto simp: count_list_0)
next
  case (Next la)
  obtain l args where la: "la = (l, args)" by (cases la)
  obtain res out0 w1 where ed: "enter_directory X (working_dir l) w = (res, out0, w1)"
    by (metis prod_cases3)
  from ed have q0: "Call_ResetState \<notin> set out0 \<and> Call_RebuildManifest \<notin> set out0"
    using enter_directory_events [OF ed] by simp
  show ?thesis
  proof (cases res)
    case (Inl code)
    with assms Next la ed have "out = out0" by (simp add: main_def)
    with q0 show ?thesis by (auto simp: count_list_0)
  next
    case (Inr u)
    obtain r1 out1 w2 where rl: "reload X l args False w1 = (r1, out1, w2)"
      by (metis prod_cases3)
    with assms Next la ed Inr have out: "out = out0 @ out1" by (simp add: main_def)
    from reload_first_pass [OF rl] show ?thesis
    proof
      assume a: "Call_ResetState \<notin> set out1 \<and> count_list out1 Call_RebuildManifest \<le> 1"
      with q0 out have "Call_ResetState \<notin> set out" by simp
      moreover from a q0 out have "count_list out Call_RebuildManifest \<le> 1"
        by (simp add: count_list_0)
      ultimately show ?thesis by (auto simp: count_list_0)
    next
      assume "\<exists>pre post. out1 = pre @ [Call_RebuildManifest, Call_ResetState] @ post
            \<and> Call_ResetState \<notin> set pre \<and> Call_RebuildManifest \<notin> set pre
            \<and> Call_ResetState \<notin> set post \<and> Call_RebuildManifest \<notin> set post"
      then obtain pre1 post1 where o1: "out1 = pre1 @ [Call_RebuildManifest, Call_ResetState] @ post1"
        and c: "Call_ResetState \<notin> set pre1" "Call_RebuildManifest \<notin> set pre1"
          "Call_ResetState \<notin> set post1" "Call_RebuildManifest \<notin> set post1"
        by blast
      from out o1 have shape: "out = (out0 @ pre1 @ [Call_RebuildManifest]) @ Call_ResetState # post1"
        by simp
      have nopre: "Call_ResetState \<notin> set (out0 @ pre1 @ [Call_RebuildManifest])"
        using q0 c by simp
      have cnt: "count_list out Call_ResetState \<le> 1 \<and> count_list out Call_RebuildManifest \<le> 1"
        using q0 c by (simp add: out o1 count_list_0)
      have "\<forall>pre post. out = pre @ Call_ResetState # post \<longrightarrow>
            Call_RebuildManifest \<notin> set post \<and> Call_ResetState \<notin> set post"
      proof (intro allI impI)
        fix pre post
        assume d: "out = pre @ Call_ResetState # post"
        have "post = post1"
        proof (rule ccontr)
          assume neq: "post \<noteq> post1"
          from d shape have e: "pre @ Call_ResetState # post =
              (out0 @ pre1 @ [Call_RebuildManifest]) @ Call_ResetState # post1" by simp
          from e neq nopre c(3) show False
            by (metis append_Cons_eq_iff in_set_conv_decomp)
        qed
        with c show "Call_RebuildManifest \<notin> set post \<and> Call_ResetState \<notin> set post" by simp
      qed
      with cnt show ?thesis by simp
    qed
  qed
qed

lemma reload_after_rebuild:
  "tool l = [] \<Longrightarrow> Load X (input_file l) [] v = ((True, err, state), v1) \<Longrightarrow>
   open_build_log X state err v1 = (Inr err1, out1, v2) \<Longrightarrow>
   reload X l args True v =
     (case build_and_report X l state args v2 of
        (r, out2, v3) \<Rightarrow> (r, Call_Load (input_file l) # out1 @ out2, v3))"
  by (subst reload.simps) simp

lemma reload_opens_log:
  assumes "tool l = []" and "Load X (input_file l) [] u = ((True, err, state), w)"
  shows "\<exists>rest. fst (snd (reload X l args rm u)) =
           Call_Load (input_file l) # fst (snd (open_build_log X state err w)) @ rest"
  apply (subst reload.simps)
  apply (simp add: assms split: prod.splits sum.splits)
  done

lemma reload_log_failure:
  assumes "tool l = []" and "Load X (input_file l) [] u = ((True, err, state), w)"
    and "open_build_log X state err w = (Inl code, out, w2)"
  shows "reload X l args rm u = (code, Call_Load (input_file l) # out, w2)"
  by (subst reload.simps) (simp add: assms)

lemma build_log_frame:
  assumes "bd = LookupVariable state ''builddir''"
    and "lp = (if bd = [] then ''.ninja_log'' else bd @ ''/.ninja_log'')"
  shows "(bd = [] \<longrightarrow> build_log_path X state w = (Inr lp, [], w))
       \<and> (bd \<noteq> [] \<and> MakeDir X bd w = ((r, errno), w1) \<and> (0 \<le> r \<or> errno = EEXIST) \<longrightarrow>
            build_log_path X state w = (Inr lp, [Call_MakeDir bd], w1))
       \<and> (open_build_log X state err w = (Inr err2, out, w2) \<longrightarrow>
            out = (if bd = [] then [] else [Call_MakeDir bd]) @
                  [Call_BuildLog_Load lp, Call_BuildLog_OpenForWrite lp])
       \<and> (open_build_log X state err w = (res, out, w2) \<longrightarrow>
            (\<forall>q. Call_BuildLog_Load q \<in> set out \<or> Call_BuildLog_OpenForWrite q \<in> set out \<longrightarrow> q = lp))"
proof (intro conjI impI allI)
  assume "bd = []"
  with assms show "build_log_path X state w = (Inr lp, [], w)"
    by (simp add: build_log_path_def kLogPath_def)
next
  assume "bd \<noteq> [] \<and> MakeDir X bd w = ((r, errno), w1) \<and> (0 \<le> r \<or> errno = EEXIST)"
  with assms show "build_log_path X state w = (Inr lp, [Call_MakeDir bd], w1)"
    by (auto simp: build_log_path_def kLogPath_def Let_def)
next
  assume a: "open_build_log X state err w = (Inr err2, out, w2)"
  obtain res1 out1 w1' where p: "build_log_path X state w = (res1, out1, w1')"
    by (metis prod_cases3)
  show "out = (if bd = [] then [] else [Call_MakeDir bd]) @
                  [Call_BuildLog_Load lp, Call_BuildLog_OpenForWrite lp]"
  proof (cases res1)
    case (Inl code)
    with a p show ?thesis by (simp add: open_build_log_def)
  next
    case (Inr lp')
    with p have "lp' = lp \<and> out1 = (if bd = [] then [] else [Call_MakeDir bd])"
      using build_log_path_value [of X state w lp' out1 w1'] assms by simp
    with a p Inr show ?thesis
      by (auto simp: open_build_log_def split: prod.splits if_splits)
  qed
next
  fix q
  assume a: "open_build_log X state err w = (res, out, w2)"
    and m: "Call_BuildLog_Load q \<in> set out \<or> Call_BuildLog_OpenForWrite q \<in> set out"
  obtain res1 out1 w1' where p: "build_log_path X state w = (res1, out1, w1')"
    by (metis prod_cases3)
  have n: "Call_BuildLog_Load q \<notin> set out1 \<and> Call_BuildLog_OpenForWrite q \<notin> set out1"
    using build_log_path_no_log_events [OF p] .
  show "q = lp"
  proof (cases res1)
    case (Inl code)
    with a p have "out = out1" by (simp add: open_build_log_def)
    with n m show ?thesis by simp
  next
    case (Inr lp')
    with p have lp': "lp' = lp"
      using build_log_path_value [of X state w lp' out1 w1'] assms by simp
    from a p Inr n m have "q = lp'"
      by (auto simp: open_build_log_def split: prod.splits if_splits)
    with lp' show ?thesis by simp
  qed
qed

lemma subtool_frame:
  assumes "parse_options (initial_locals config0 p) [] calls final = Next (l, args)"
    and "tool l \<noteq> []"
    and "main X config0 p calls final w = (r, out, w')"
  shows "(\<forall>q. Call_BuildLog_Load q \<notin> set out \<and> Call_BuildLog_OpenForWrite q \<notin> set out)
       \<and> Call_RebuildManifest \<notin> set out \<and> Call_ResetState \<notin> set out
       \<and> (enter_directory X (working_dir l) w = (Inr (), out0, w0)
            \<and> Load X (input_file l) [] w0 = ((True, err, state), w1) \<longrightarrow>
          (r, out, w') =
            (case RunTool X (tool l) state (config l) args w1 of
               (r2, out2, w2) \<Rightarrow>
                 (r2, out0 @ [Call_Load (input_file l), Call_RunTool (tool l) args] @ out2, w2)))"
proof -
  obtain res outd wd where ed: "enter_directory X (working_dir l) w = (res, outd, wd)"
    by (metis prod_cases3)
  note qd = enter_directory_events [OF ed]
  show ?thesis
  proof (cases res)
    case (Inl code)
    with assms ed have "out = outd" by (simp add: main_def)
    with qd Inl ed show ?thesis by simp
  next
    case (Inr u)
    obtain r1 out1 w2 where rl: "reload X l args False wd = (r1, out1, w2)"
      by (metis prod_cases3)
    with assms ed Inr have m: "r = r1" "out = outd @ out1" "w' = w2"
      by (simp_all add: main_def)
    obtain ok e st wl where ld: "Load X (input_file l) [] wd = ((ok, e, st), wl)"
      by (metis prod_cases3 surj_pair)
    show ?thesis
    proof (cases ok)
      case False
      with rl ld have "out1 = [Call_Load (input_file l), Error e]"
        by (subst (asm) reload.simps) simp
      with m qd Inr ed ld False show ?thesis by auto
    next
      case True
      obtain r2 out2 w3 where rt: "RunTool X (tool l) st (config l) args wl = (r2, out2, w3)"
        by (metis prod_cases3)
      note qt = RunTool_events [OF rt]
      from rl ld True rt assms(2)
      have "(r1, out1, w2) = (r2, [Call_Load (input_file l), Call_RunTool (tool l) args] @ out2, w3)"
        by (subst (asm) reload.simps) simp
      with m qd qt ed Inr ld True rt show ?thesis by auto
    qed
  qed
qed


lemma list_not_tool: "''list'' \<notin> set (map fst tools)"
  by (simp add: tools_def)

lemma main_runs_tool:
  assumes "parse_options (initial_locals config0 p) [] calls final = Next (l, args)"
    and "tool l \<noteq> []"
    and "enter_directory X (working_dir l) w = (Inr (), out0, w0)"
    and "Load X (input_file l) [] w0 = ((True, err, state), w1)"
  shows "main X config0 p calls final w =
           (case RunTool X (tool l) state (config l) args w1 of
              (r2, out2, w2) \<Rightarrow>
                (r2, out0 @ [Call_Load (input_file l), Call_RunTool (tool l) args] @ out2, w2))"
  using assms
  by (simp add: main_def) (subst reload.simps, simp split: prod.splits)

subsection \<open>The manifest is reloaded at most once\<close>

text \<open>
  C3. In the trace of any run of \<open>main\<close>, the manifest rebuild is attempted at most
  once and the state is reset (to parse the manifest again) at most once; after a
  reset the trace contains no further rebuild attempt and no further reset, whatever
  the library answers in the second pass. A pass that starts with
  \<^verbatim>\<open>rebuilt_manifest\<close> set goes from the opening of the build log straight to the
  build.
\<close>

theorem manifest_reloaded_once:
  assumes "main X config0 p calls final w = (r, out, w')"
  shows "count_list out Call_ResetState \<le> 1 \<and> count_list out Call_RebuildManifest \<le> 1
       \<and> (\<forall>pre post. out = pre @ Call_ResetState # post \<longrightarrow>
            Call_RebuildManifest \<notin> set post \<and> Call_ResetState \<notin> set post)
       \<and> (tool l = [] \<and> Load X (input_file l) [] v = ((True, err, state), v1)
            \<and> open_build_log X state err v1 = (Inr err1, out1, v2) \<longrightarrow>
          reload X l args True v =
            (case build_and_report X l state args v2 of
               (r2, out2, v3) \<Rightarrow> (r2, Call_Load (input_file l) # out1 @ out2, v3)))"
  using main_rebuild_trace [OF assms] reload_after_rebuild [of l X v err state v1 err1 out1 v2 args]
  by simp

theorem manifest_reloaded_once_witness:
  "main sample_extern sample_config 4 [] [''hello''] 0 =
     (0,
      [Call_Load ''build.ninja'', Call_MakeDir ''out'', Call_BuildLog_Load ''out/.ninja_log'',
       Call_BuildLog_OpenForWrite ''out/.ninja_log'', Call_RebuildManifest] @
      Call_ResetState #
      [Call_Load ''build.ninja'', Call_MakeDir ''out'', Call_BuildLog_Load ''out/.ninja_log'',
       Call_BuildLog_OpenForWrite ''out/.ninja_log'', Call_RunBuild [''hello'']],
      2)
   \<and> Call_RebuildManifest \<notin> set
       [Call_Load ''build.ninja'', Call_MakeDir ''out'', Call_BuildLog_Load ''out/.ninja_log'',
        Call_BuildLog_OpenForWrite ''out/.ninja_log'', Call_RunBuild [''hello'']]"
proof -
  have "\<forall>pre post.
      [Call_Load ''build.ninja'', Call_MakeDir ''out'', Call_BuildLog_Load ''out/.ninja_log'',
       Call_BuildLog_OpenForWrite ''out/.ninja_log'', Call_RebuildManifest] @
      Call_ResetState #
      [Call_Load ''build.ninja'', Call_MakeDir ''out'', Call_BuildLog_Load ''out/.ninja_log'',
       Call_BuildLog_OpenForWrite ''out/.ninja_log'', Call_RunBuild [''hello'']] =
      pre @ Call_ResetState # post \<longrightarrow>
      Call_RebuildManifest \<notin> set post \<and> Call_ResetState \<notin> set post"
    using manifest_reloaded_once [OF sample_main_run, where l = "initial_locals sample_config 4"
        and v = 0 and err = "[]" and state = sample_state and ?v1.0 = 0 and ?err1.0 = "[]"
        and ?out1.0 = "[]" and ?v2.0 = 0 and args = "[]"]
    by (rule conjunct2 [THEN conjunct2, THEN conjunct1])
  then have "Call_RebuildManifest \<notin> set
       [Call_Load ''build.ninja'', Call_MakeDir ''out'', Call_BuildLog_Load ''out/.ninja_log'',
        Call_BuildLog_OpenForWrite ''out/.ninja_log'', Call_RunBuild [''hello'']]"
    by blast
  with sample_main_run show ?thesis by (rule conjI)
qed

subsection \<open>The place of the build log\<close>

text \<open>
  C8. With \<open>bd\<close> the top-level variable \<^verbatim>\<open>builddir\<close>, the path of the log is
  \<^verbatim>\<open>.ninja_log\<close> when \<open>bd\<close> is empty, and then no directory is made; otherwise it is
  \<open>bd\<close>, a slash and \<^verbatim>\<open>.ninja_log\<close>, after \<^verbatim>\<open>MakeDir\<close> on \<open>bd\<close>, whose failure
  with \<^verbatim>\<open>EEXIST\<close> is not an error, while any other failure is. When the library
  calls succeed, the log is loaded and then opened for writing at that path, in the
  world the calls leave; no log call is made at another path. Every pass of \<open>main\<close>
  that has loaded the manifest and runs no tool does this next.
\<close>

theorem build_log_location:
  assumes "bd = LookupVariable state ''builddir''"
    and "lp = (if bd = [] then ''.ninja_log'' else bd @ ''/.ninja_log'')"
  shows "(bd = [] \<longrightarrow> build_log_path X state w = (Inr lp, [], w))
       \<and> (bd \<noteq> [] \<and> MakeDir X bd w = ((r, errno), w1) \<and> (0 \<le> r \<or> errno = EEXIST) \<longrightarrow>
            build_log_path X state w = (Inr lp, [Call_MakeDir bd], w1))
       \<and> (open_build_log X state err w = (Inr err2, out, w2) \<longrightarrow>
            out = (if bd = [] then [] else [Call_MakeDir bd]) @
                  [Call_BuildLog_Load lp, Call_BuildLog_OpenForWrite lp])
       \<and> (open_build_log X state err w = (res, out, w2) \<longrightarrow>
            (\<forall>q. Call_BuildLog_Load q \<in> set out \<or> Call_BuildLog_OpenForWrite q \<in> set out \<longrightarrow> q = lp))
       \<and> (bd = [] \<and> BuildLog_Load X lp err w = ((True, e1), v1)
            \<and> BuildLog_OpenForWrite X lp e1 v1 = ((True, e2), v2) \<longrightarrow>
            open_build_log X state err w =
              (Inr e2, [Call_BuildLog_Load lp, Call_BuildLog_OpenForWrite lp], v2))
       \<and> (bd \<noteq> [] \<and> MakeDir X bd w = ((r, errno), w1) \<and> (0 \<le> r \<or> errno = EEXIST)
            \<and> BuildLog_Load X lp err w1 = ((True, e1), v1)
            \<and> BuildLog_OpenForWrite X lp e1 v1 = ((True, e2), v2) \<longrightarrow>
            open_build_log X state err w =
              (Inr e2, [Call_MakeDir bd, Call_BuildLog_Load lp, Call_BuildLog_OpenForWrite lp], v2))
       \<and> (bd \<noteq> [] \<and> MakeDir X bd w = ((r, errno), w1) \<and> r < 0 \<and> errno \<noteq> EEXIST \<longrightarrow>
            open_build_log X state err w =
              (Inl 1,
               [Call_MakeDir bd,
                Error (''creating build directory '' @ bd @ '': '' @ strerror X errno)],
               w1))
       \<and> (tool l = [] \<and> Load X (input_file l) [] u = ((True, err, state), w) \<longrightarrow>
            (\<exists>rest. fst (snd (reload X l args rm u)) =
               Call_Load (input_file l) # fst (snd (open_build_log X state err w)) @ rest))
       \<and> (tool l = [] \<and> Load X (input_file l) [] u = ((True, err, state), w)
            \<and> open_build_log X state err w = (Inl code, out, w2) \<longrightarrow>
            reload X l args rm u = (code, Call_Load (input_file l) # out, w2))"
proof -
  have c1: "bd = [] \<longrightarrow> build_log_path X state w = (Inr lp, [], w)"
    using assms by (simp add: build_log_path_def kLogPath_def)
  have c2: "bd \<noteq> [] \<and> MakeDir X bd w = ((r, errno), w1) \<and> (0 \<le> r \<or> errno = EEXIST) \<longrightarrow>
            build_log_path X state w = (Inr lp, [Call_MakeDir bd], w1)"
    using assms by (auto simp: build_log_path_def kLogPath_def Let_def)
  have c5: "bd = [] \<and> BuildLog_Load X lp err w = ((True, e1), v1)
            \<and> BuildLog_OpenForWrite X lp e1 v1 = ((True, e2), v2) \<longrightarrow>
            open_build_log X state err w =
              (Inr e2, [Call_BuildLog_Load lp, Call_BuildLog_OpenForWrite lp], v2)"
    using c1 by (simp add: open_build_log_def)
  have c6: "bd \<noteq> [] \<and> MakeDir X bd w = ((r, errno), w1) \<and> (0 \<le> r \<or> errno = EEXIST)
            \<and> BuildLog_Load X lp err w1 = ((True, e1), v1)
            \<and> BuildLog_OpenForWrite X lp e1 v1 = ((True, e2), v2) \<longrightarrow>
            open_build_log X state err w =
              (Inr e2, [Call_MakeDir bd, Call_BuildLog_Load lp, Call_BuildLog_OpenForWrite lp], v2)"
    using c2 by (simp add: open_build_log_def)
  have c7: "bd \<noteq> [] \<and> MakeDir X bd w = ((r, errno), w1) \<and> r < 0 \<and> errno \<noteq> EEXIST \<longrightarrow>
            open_build_log X state err w =
              (Inl 1,
               [Call_MakeDir bd,
                Error (''creating build directory '' @ bd @ '': '' @ strerror X errno)],
               w1)"
    using assms by (simp add: open_build_log_def build_log_path_def Let_def)
  have c8: "tool l = [] \<and> Load X (input_file l) [] u = ((True, err, state), w) \<longrightarrow>
            (\<exists>rest. fst (snd (reload X l args rm u)) =
               Call_Load (input_file l) # fst (snd (open_build_log X state err w)) @ rest)"
    using reload_opens_log [of l X u err state w args rm] by simp
  have c9: "tool l = [] \<and> Load X (input_file l) [] u = ((True, err, state), w)
            \<and> open_build_log X state err w = (Inl code, out, w2) \<longrightarrow>
            reload X l args rm u = (code, Call_Load (input_file l) # out, w2)"
    using reload_log_failure [of l X u err state w code out w2 args rm] by simp
  note f = build_log_frame [OF assms, where X = X and w = w and r = r and errno = errno
      and ?w1.0 = w1 and err = err and ?err2.0 = err2 and out = out and ?w2.0 = w2 and res = res]
  from f have c3: "open_build_log X state err w = (Inr err2, out, w2) \<longrightarrow>
            out = (if bd = [] then [] else [Call_MakeDir bd]) @
                  [Call_BuildLog_Load lp, Call_BuildLog_OpenForWrite lp]"
    by (rule conjunct2 [THEN conjunct2, THEN conjunct1])
  from f have c4: "open_build_log X state err w = (res, out, w2) \<longrightarrow>
            (\<forall>q. Call_BuildLog_Load q \<in> set out \<or> Call_BuildLog_OpenForWrite q \<in> set out \<longrightarrow> q = lp)"
    by (rule conjunct2 [THEN conjunct2, THEN conjunct2])
  from c1 c2 c3 c4 c5 c6 c7 c8 c9 show ?thesis
    by (intro conjI)
qed

theorem build_log_location_witness:
  "open_build_log sample_extern sample_state [] 0 =
       (Inr [], [Call_MakeDir ''out'', Call_BuildLog_Load ''out/.ninja_log'',
                 Call_BuildLog_OpenForWrite ''out/.ninja_log''], 0)"
proof -
  have b: "''out'' = LookupVariable sample_state ''builddir''"
    by (simp add: sample_state_def)
  have lp: "''out/.ninja_log'' = (if ''out'' = [] then ''.ninja_log'' else ''out'' @ ''/.ninja_log'')"
    by simp
  have lib: "''out'' \<noteq> [] \<and> MakeDir sample_extern ''out'' 0 = ((- 1, EEXIST), 0)
      \<and> (0 \<le> (- 1 :: int) \<or> EEXIST = EEXIST)
      \<and> BuildLog_Load sample_extern ''out/.ninja_log'' [] 0 = ((True, []), 0)
      \<and> BuildLog_OpenForWrite sample_extern ''out/.ninja_log'' [] 0 = ((True, []), 0)"
    by (simp add: sample_extern_def)
  have "''out'' \<noteq> [] \<and> MakeDir sample_extern ''out'' 0 = ((- 1, EEXIST), 0)
      \<and> (0 \<le> (- 1 :: int) \<or> EEXIST = EEXIST)
      \<and> BuildLog_Load sample_extern ''out/.ninja_log'' [] 0 = ((True, []), 0)
      \<and> BuildLog_OpenForWrite sample_extern ''out/.ninja_log'' [] 0 = ((True, []), 0) \<longrightarrow>
      open_build_log sample_extern sample_state [] 0 =
       (Inr [], [Call_MakeDir ''out'', Call_BuildLog_Load ''out/.ninja_log'',
                 Call_BuildLog_OpenForWrite ''out/.ninja_log''], 0)"
    using build_log_location [where bd = "''out''" and state = sample_state
        and lp = "''out/.ninja_log''" and X = sample_extern and w = 0 and r = "- 1"
        and errno = EEXIST and ?w1.0 = 0 and err = "[]" and ?err2.0 = "[]" and out = "[]"
        and ?w2.0 = 0 and res = "Inr []" and ?e1.0 = "[]" and ?v1.0 = 0 and ?e2.0 = "[]"
        and ?v2.0 = 0 and l = "initial_locals sample_config 4" and u = 0 and args = "[]"
        and rm = False and code = 1, OF b lp]
    by (rule conjunct2 [THEN conjunct2, THEN conjunct2, THEN conjunct2, THEN conjunct2, THEN conjunct1])
  with lib show ?thesis by (rule rev_mp)
qed

subsection \<open>Subtool mode\<close>

text \<open>
  C9. When option parsing ends with a tool chosen, the trace of \<open>main\<close> has no load
  and no opening of the build log, no manifest rebuild and no reset. When the
  directory is entered and the manifest loads, \<open>RunTool\<close> runs next: for a name in
  the table the tool of that name runs on the remaining arguments and its status is the
  exit status; for \<^verbatim>\<open>list\<close> the status is 0 and for any other name 1, and no tool
  runs. When the manifest does not load, the status is 1.
\<close>

theorem subtool_mode:
  assumes "parse_options (initial_locals config0 p) [] calls final = Next (l, args)"
    and "tool l \<noteq> []"
    and "main X config0 p calls final w = (r, out, w')"
  shows "(\<forall>q. Call_BuildLog_Load q \<notin> set out \<and> Call_BuildLog_OpenForWrite q \<notin> set out)
       \<and> Call_RebuildManifest \<notin> set out \<and> Call_ResetState \<notin> set out
       \<and> (enter_directory X (working_dir l) w = (Inr (), out0, w0)
            \<and> Load X (input_file l) [] w0 = ((True, err, state), w1) \<longrightarrow>
          (r, out, w') =
            (case RunTool X (tool l) state (config l) args w1 of
               (r2, out2, w2) \<Rightarrow>
                 (r2, out0 @ [Call_Load (input_file l), Call_RunTool (tool l) args] @ out2, w2)))
       \<and> (enter_directory X (working_dir l) w = (Inr (), out0, w0)
            \<and> Load X (input_file l) [] w0 = ((True, err, state), w1)
            \<and> tool l \<in> set (map fst tools)
            \<and> tool_func X (tool l) state (config l) args w1 = (status, w2) \<longrightarrow>
          (r, out, w') =
            (status,
             out0 @ [Call_Load (input_file l), Call_RunTool (tool l) args, Call_Tool (tool l) args],
             w2))
       \<and> (enter_directory X (working_dir l) w = (Inr (), out0, w0)
            \<and> Load X (input_file l) [] w0 = ((True, err, state), w1)
            \<and> tool l \<noteq> ''list'' \<and> tool l \<notin> set (map fst tools) \<longrightarrow>
          r = 1 \<and> w' = w1 \<and> (\<forall>name a. Call_Tool name a \<notin> set out))
       \<and> (enter_directory X (working_dir l) w = (Inr (), out0, w0)
            \<and> Load X (input_file l) [] w0 = ((True, err, state), w1)
            \<and> tool l = ''list'' \<longrightarrow>
          r = 0 \<and> w' = w1 \<and> (\<forall>name a. Call_Tool name a \<notin> set out))
       \<and> (enter_directory X (working_dir l) w = (Inr (), out0, w0)
            \<and> Load X (input_file l) [] w0 = ((False, err, state), w1) \<longrightarrow>
          (r, out, w') = (1, out0 @ [Call_Load (input_file l), Error err], w1))"
proof -
  note f = subtool_frame [OF assms, where ?out0.0 = out0 and ?w0.0 = w0 and err = err
      and state = state and ?w1.0 = w1]
  have c5: "enter_directory X (working_dir l) w = (Inr (), out0, w0)
            \<and> Load X (input_file l) [] w0 = ((True, err, state), w1)
            \<and> tool l \<in> set (map fst tools)
            \<and> tool_func X (tool l) state (config l) args w1 = (status, w2) \<longrightarrow>
          (r, out, w') =
            (status,
             out0 @ [Call_Load (input_file l), Call_RunTool (tool l) args, Call_Tool (tool l) args],
             w2)"
  proof
    assume a: "enter_directory X (working_dir l) w = (Inr (), out0, w0)
            \<and> Load X (input_file l) [] w0 = ((True, err, state), w1)
            \<and> tool l \<in> set (map fst tools)
            \<and> tool_func X (tool l) state (config l) args w1 = (status, w2)"
    then have "tool l \<in> set (map fst tools)" by simp
    with list_not_tool have nl: "tool l \<noteq> ''list''"
      by metis
    from a have ed: "enter_directory X (working_dir l) w = (Inr (), out0, w0)"
      and ld: "Load X (input_file l) [] w0 = ((True, err, state), w1)"
      by simp_all
    have "main X config0 p calls final w =
           (case RunTool X (tool l) state (config l) args w1 of
              (r2, out2, w2) \<Rightarrow>
                (r2, out0 @ [Call_Load (input_file l), Call_RunTool (tool l) args] @ out2, w2))"
      using main_runs_tool [OF assms(1,2) ed ld] .
    with a nl assms(3) show "(r, out, w') =
            (status,
             out0 @ [Call_Load (input_file l), Call_RunTool (tool l) args, Call_Tool (tool l) args],
             w2)"
      by (simp add: RunTool_def)
  qed
  have c6: "enter_directory X (working_dir l) w = (Inr (), out0, w0)
            \<and> Load X (input_file l) [] w0 = ((True, err, state), w1)
            \<and> tool l \<noteq> ''list'' \<and> tool l \<notin> set (map fst tools) \<longrightarrow>
          r = 1 \<and> w' = w1 \<and> (\<forall>name a. Call_Tool name a \<notin> set out)"
  proof
    assume a: "enter_directory X (working_dir l) w = (Inr (), out0, w0)
            \<and> Load X (input_file l) [] w0 = ((True, err, state), w1)
            \<and> tool l \<noteq> ''list'' \<and> tool l \<notin> set (map fst tools)"
    then have ed: "enter_directory X (working_dir l) w = (Inr (), out0, w0)"
      and ld: "Load X (input_file l) [] w0 = ((True, err, state), w1)"
      by simp_all
    have "main X config0 p calls final w =
           (case RunTool X (tool l) state (config l) args w1 of
              (r2, out2, w2) \<Rightarrow>
                (r2, out0 @ [Call_Load (input_file l), Call_RunTool (tool l) args] @ out2, w2))"
      using main_runs_tool [OF assms(1,2) ed ld] .
    with a assms(3) have "r = 1 \<and> w' = w1 \<and> (\<exists>m. out = out0 @ [Call_Load (input_file l),
        Call_RunTool (tool l) args, Error m])"
      by (auto simp: RunTool_def)
    moreover from a have "\<forall>name a. Call_Tool name a \<notin> set out0"
      by (auto simp: enter_directory_def split: option.splits prod.splits if_splits)
    ultimately show "r = 1 \<and> w' = w1 \<and> (\<forall>name a. Call_Tool name a \<notin> set out)"
      by auto
  qed
  have c7: "enter_directory X (working_dir l) w = (Inr (), out0, w0)
            \<and> Load X (input_file l) [] w0 = ((True, err, state), w1)
            \<and> tool l = ''list'' \<longrightarrow>
          r = 0 \<and> w' = w1 \<and> (\<forall>name a. Call_Tool name a \<notin> set out)"
  proof
    assume a: "enter_directory X (working_dir l) w = (Inr (), out0, w0)
            \<and> Load X (input_file l) [] w0 = ((True, err, state), w1)
            \<and> tool l = ''list''"
    then have ed: "enter_directory X (working_dir l) w = (Inr (), out0, w0)"
      and ld: "Load X (input_file l) [] w0 = ((True, err, state), w1)"
      by simp_all
    have "main X config0 p calls final w =
           (case RunTool X (tool l) state (config l) args w1 of
              (r2, out2, w2) \<Rightarrow>
                (r2, out0 @ [Call_Load (input_file l), Call_RunTool (tool l) args] @ out2, w2))"
      using main_runs_tool [OF assms(1,2) ed ld] .
    with a assms(3) have "r = 0 \<and> w' = w1 \<and> (\<exists>ps. out = out0 @ [Call_Load (input_file l),
        Call_RunTool (tool l) args] @ map Printf ps)"
      by (auto simp: RunTool_def tools_def intro: exI [of _ "[_, _, _, _, _, _, _, _]"])
    moreover from a have "\<forall>name a. Call_Tool name a \<notin> set out0"
      by (auto simp: enter_directory_def split: option.splits prod.splits if_splits)
    ultimately show "r = 0 \<and> w' = w1 \<and> (\<forall>name a. Call_Tool name a \<notin> set out)"
      by auto
  qed
  have c8: "enter_directory X (working_dir l) w = (Inr (), out0, w0)
            \<and> Load X (input_file l) [] w0 = ((False, err, state), w1) \<longrightarrow>
          (r, out, w') = (1, out0 @ [Call_Load (input_file l), Error err], w1)"
  proof
    assume a: "enter_directory X (working_dir l) w = (Inr (), out0, w0)
            \<and> Load X (input_file l) [] w0 = ((False, err, state), w1)"
    have "reload X l args False w0 = (1, [Call_Load (input_file l), Error err], w1)"
      using a by (subst reload.simps) simp
    with a assms show "(r, out, w') = (1, out0 @ [Call_Load (input_file l), Error err], w1)"
      by (simp add: main_def)
  qed
  from f have c1: "\<forall>q. Call_BuildLog_Load q \<notin> set out \<and> Call_BuildLog_OpenForWrite q \<notin> set out"
    by (rule conjunct1)
  from f have c2: "Call_RebuildManifest \<notin> set out"
    by (rule conjunct2 [THEN conjunct1])
  from f have c3: "Call_ResetState \<notin> set out"
    by (rule conjunct2 [THEN conjunct2, THEN conjunct1])
  from f have c4: "enter_directory X (working_dir l) w = (Inr (), out0, w0)
            \<and> Load X (input_file l) [] w0 = ((True, err, state), w1) \<longrightarrow>
          (r, out, w') =
            (case RunTool X (tool l) state (config l) args w1 of
               (r2, out2, w2) \<Rightarrow>
                 (r2, out0 @ [Call_Load (input_file l), Call_RunTool (tool l) args] @ out2, w2))"
    by (rule conjunct2 [THEN conjunct2, THEN conjunct2])
  from c1 c2 c3 c4 c5 c6 c7 c8 show ?thesis
    by (intro conjI)
qed

theorem subtool_mode_witness:
  "main (sample_extern\<lparr>tool_func := \<lambda>name state cfg args w. (3, Suc w)\<rparr>) sample_config 4
     [\<lparr>opt = CHR ''t'', optarg = ''query'', remaining = [''hello'']\<rparr>] [] 0 =
   (3, [] @ [Call_Load ''build.ninja'', Call_RunTool ''query'' [''hello''], Call_Tool ''query'' [''hello'']], 1)"
proof -
  let ?X = "sample_extern\<lparr>tool_func := \<lambda>name state cfg args w. (3, Suc w)\<rparr>"
  let ?l = "(initial_locals sample_config 4)\<lparr>tool := ''query''\<rparr>"
  have po: "parse_options (initial_locals sample_config 4) []
      [\<lparr>opt = CHR ''t'', optarg = ''query'', remaining = [''hello'']\<rparr>] [] = Next (?l, [''hello''])"
    by (simp add: initial_locals_def parse_option_def)
  have t: "tool ?l \<noteq> []"
    by simp
  obtain r out w' where m: "main ?X sample_config 4
      [\<lparr>opt = CHR ''t'', optarg = ''query'', remaining = [''hello'']\<rparr>] [] 0 = (r, out, w')"
    by (metis prod_cases3)
  have lib: "enter_directory ?X (working_dir ?l) 0 = (Inr (), [], 0)
      \<and> Load ?X (input_file ?l) [] 0 = ((True, [], sample_state), 0)
      \<and> tool ?l \<in> set (map fst tools)
      \<and> tool_func ?X (tool ?l) sample_state (config ?l) [''hello''] 0 = (3, 1)"
    by (simp add: enter_directory_def initial_locals_def sample_extern_def tools_def)
  have "enter_directory ?X (working_dir ?l) 0 = (Inr (), [], 0)
      \<and> Load ?X (input_file ?l) [] 0 = ((True, [], sample_state), 0)
      \<and> tool ?l \<in> set (map fst tools)
      \<and> tool_func ?X (tool ?l) sample_state (config ?l) [''hello''] 0 = (3, 1) \<longrightarrow>
      (r, out, w') =
        (3, [] @ [Call_Load (input_file ?l), Call_RunTool (tool ?l) [''hello''],
                  Call_Tool (tool ?l) [''hello'']], 1)"
    using subtool_mode [OF po t m, where ?out0.0 = "[]" and ?w0.0 = 0 and err = "[]"
        and state = sample_state and ?w1.0 = 0 and status = 3 and ?w2.0 = 1]
    by (rule conjunct2 [THEN conjunct2, THEN conjunct2, THEN conjunct2, THEN conjunct1])
  with lib have "(r, out, w') =
        (3, [] @ [Call_Load (input_file ?l), Call_RunTool (tool ?l) [''hello''],
                  Call_Tool (tool ?l) [''hello'']], 1)"
    by (rule rev_mp)
  with m show ?thesis by (simp add: initial_locals_def)
qed

end
